theory Spec2Isabelle
  imports
    Main
    "HOL-Library.AList"
    "HOL-Library.Char_ord"
    "HOL-Library.List_Lexorder"
    "HOL-Library.Multiset"
begin

section \<open>Strings, diagnostics and loosely typed values\<close>

text \<open>
  A Go \<^verbatim>\<open>string\<close> is a sequence of bytes, and so is \<^typ>\<open>string\<close>. The order that
  \<^verbatim>\<open>sort.Strings\<close> uses (bytewise lexicographic, a proper prefix first) is the order of
  \<^typ>\<open>char list\<close> given by \<open>Char_ord\<close> and \<open>List_Lexorder\<close>. A sorted
  slice of strings is determined by its elements, so \<^const>\<open>sort\<close> stands for
  \<^verbatim>\<open>sort.Strings\<close>.
\<close>

datatype severity = Error | Warning

record diagnostic =
  Severity :: severity
  Summary :: string

definition errorDiag :: "string \<Rightarrow> diagnostic" where
  "errorDiag msg = \<lparr>Severity = Error, Summary = msg\<rparr>"

text \<open>
  A value of type \<^verbatim>\<open>interface{}\<close>: a string, a \<^verbatim>\<open>[]interface{}\<close>, a
  \<^verbatim>\<open>map[string]interface{}\<close>, or something of another dynamic type (a number, a
  boolean, nil). A Go map is carried as an association list read through
  \<^const>\<open>map_of\<close>: its keys are the first components without repetition, and the first
  binding of a key is its value.
\<close>

datatype iface =
    IString string
  | IList "iface list"
  | IMap "(string \<times> iface) list"
  | IInt int
  | IBool bool
  | INil

type_synonym strmap = "(string \<times> string) list"

definition mapKeys :: "(string \<times> 'v) list \<Rightarrow> string list" where
  "mapKeys m = remdups (map fst m)"

definition mapLen :: "(string \<times> 'v) list \<Rightarrow> nat" where
  "mapLen m = length (mapKeys m)"

text \<open>Indexing a \<^verbatim>\<open>map[string]string\<close>: a missing key reads as the empty string.\<close>

definition mapGet :: "strmap \<Rightarrow> string \<Rightarrow> string" where
  "mapGet m k = (case map_of m k of Some v \<Rightarrow> v | None \<Rightarrow> [])"

text \<open>The keys of a map collected in a slice and sorted with \<^verbatim>\<open>sort.Strings\<close>.\<close>

definition sortedKeys :: "(string \<times> 'v) list \<Rightarrow> string list" where
  "sortedKeys m = sort (mapKeys m)"

definition DefaultHostGroup :: string where
  "DefaultHostGroup = ''default''"

record InventoryHost =
  Name :: string
  Groups :: "string list"
  Variables :: strmap

record InventoryGroup =
  GroupName :: string
  Children :: "string list"
  GroupVariables :: strmap

section \<open>The library functions the module calls\<close>

subsection \<open>\<^verbatim>\<open>strconv.Itoa\<close>\<close>

definition digitChar :: "nat \<Rightarrow> char" where
  "digitChar d = ''0123456789'' ! d"

fun natDigits :: "nat \<Rightarrow> string" where
  "natDigits n = (if n < 10 then [digitChar n] else natDigits (n div 10) @ [digitChar (n mod 10)])"

declare natDigits.simps [simp del]

definition Itoa :: "int \<Rightarrow> string" where
  "Itoa i = (if i < 0 then CHR ''-'' # natDigits (nat (- i)) else natDigits (nat i))"

subsection \<open>UTF-8 (\<^verbatim>\<open>unicode/utf8\<close>)\<close>

text \<open>
  A rune is a natural number. The masks and shifts of the Go code are written with
  \<open>mod\<close>, \<open>div\<close> and multiplication by powers of two; the table \<^verbatim>\<open>first\<close> and the
  accept ranges are written out as the comparisons they encode.
\<close>

definition RuneError :: nat where
  "RuneError = 0xFFFD"

definition RuneSelf :: nat where
  "RuneSelf = 0x80"

definition MaxRune :: nat where
  "MaxRune = 0x10FFFF"

definition ValidRune :: "nat \<Rightarrow> bool" where
  "ValidRune r = (r < 0xD800 \<or> (0xDFFF < r \<and> r \<le> MaxRune))"

definition contByte :: "nat \<Rightarrow> bool" where
  "contByte b = (0x80 \<le> b \<and> b \<le> 0xBF)"

fun DecodeRuneInString :: "string \<Rightarrow> nat \<times> nat" where
  "DecodeRuneInString [] = (RuneError, 0)"
| "DecodeRuneInString (c0 # s) =
    (let s0 = (of_char c0 :: nat) in
     if s0 < 0x80 then (s0, 1)
     else if s0 < 0xC2 \<or> 0xF4 < s0 then (RuneError, 1)
     else
       let sz = (if s0 < 0xE0 then 2 else if s0 < 0xF0 then 3 else 4) :: nat;
           lo = (if s0 = 0xE0 then 0xA0 else if s0 = 0xF0 then 0x90 else 0x80) :: nat;
           hi = (if s0 = 0xED then 0x9F else if s0 = 0xF4 then 0x8F else 0xBF) :: nat
       in
         if length (c0 # s) < sz then (RuneError, 1)
         else
           let s1 = (of_char (s ! 0) :: nat) in
           if s1 < lo \<or> hi < s1 then (RuneError, 1)
           else if sz \<le> 2 then ((s0 mod 32) * 64 + s1 mod 64, 2)
           else
             let s2 = (of_char (s ! 1) :: nat) in
             if \<not> contByte s2 then (RuneError, 1)
             else if sz \<le> 3 then ((s0 mod 16) * 4096 + (s1 mod 64) * 64 + s2 mod 64, 3)
             else
               let s3 = (of_char (s ! 2) :: nat) in
               if \<not> contByte s3 then (RuneError, 1)
               else ((s0 mod 8) * 262144 + (s1 mod 64) * 4096 + (s2 mod 64) * 64 + s3 mod 64, 4))"

definition AppendRune :: "nat \<Rightarrow> string" where
  "AppendRune r0 =
    (if r0 \<le> 0x7F then [char_of r0]
     else if r0 \<le> 0x7FF then [char_of (0xC0 + r0 div 64), char_of (0x80 + r0 mod 64)]
     else
       let r = (if MaxRune < r0 \<or> (0xD800 \<le> r0 \<and> r0 \<le> 0xDFFF) then RuneError else r0) in
       if r \<le> 0xFFFF
       then [char_of (0xE0 + r div 4096), char_of (0x80 + (r div 64) mod 64),
             char_of (0x80 + r mod 64)]
       else [char_of (0xF0 + r div 262144), char_of (0x80 + (r div 4096) mod 64),
             char_of (0x80 + (r div 64) mod 64), char_of (0x80 + r mod 64)])"

subsection \<open>\<^verbatim>\<open>strconv.Quote\<close>\<close>

text \<open>
  \<^verbatim>\<open>strconv.IsPrint\<close> decides Latin-1 by comparisons and everything above by the
  Unicode tables of the Go release. The tables are the parameter \<open>tbl\<close> of every
  function that quotes.
\<close>

type_synonym printTable = "nat \<Rightarrow> bool"

definition IsPrint :: "printTable \<Rightarrow> nat \<Rightarrow> bool" where
  "IsPrint tbl r =
    (if r \<le> 0xFF then
       (if 0x20 \<le> r \<and> r \<le> 0x7E then True
        else if 0xA1 \<le> r \<and> r \<le> 0xFF then r \<noteq> 0xAD
        else False)
     else tbl r)"

definition lowerhex :: "nat \<Rightarrow> char" where
  "lowerhex i = ''0123456789abcdef'' ! i"

definition hexByte :: "nat \<Rightarrow> string" where
  "hexByte b = [lowerhex (b div 16), lowerhex (b mod 16)]"

definition hexRune :: "nat list \<Rightarrow> nat \<Rightarrow> string" where
  "hexRune shifts r = map (\<lambda>s. lowerhex ((r div 2 ^ s) mod 16)) shifts"

definition appendEscapedRune :: "printTable \<Rightarrow> nat \<Rightarrow> string" where
  "appendEscapedRune tbl r =
    (if r = of_char (CHR ''\"'') \<or> r = of_char (CHR 0x5C) then [CHR 0x5C, char_of r]
     else if IsPrint tbl r then AppendRune r
     else if r = 7 then [CHR 0x5C, CHR ''a'']
     else if r = 8 then [CHR 0x5C, CHR ''b'']
     else if r = 12 then [CHR 0x5C, CHR ''f'']
     else if r = 10 then [CHR 0x5C, CHR ''n'']
     else if r = 13 then [CHR 0x5C, CHR ''r'']
     else if r = 9 then [CHR 0x5C, CHR ''t'']
     else if r = 11 then [CHR 0x5C, CHR ''v'']
     else if r < 0x20 \<or> r = 0x7F then [CHR 0x5C, CHR ''x''] @ hexByte r
     else if \<not> ValidRune r then [CHR 0x5C, CHR ''u''] @ hexRune [12, 8, 4, 0] RuneError
     else if r < 0x10000 then [CHR 0x5C, CHR ''u''] @ hexRune [12, 8, 4, 0] r
     else [CHR 0x5C, CHR ''U''] @ hexRune [28, 24, 20, 16, 12, 8, 4, 0] r)"

text \<open>The rune at the head of a non-empty string and its width, as the quoting loop reads it.\<close>

definition headRune :: "string \<Rightarrow> nat \<times> nat" where
  "headRune s =
    (if RuneSelf \<le> of_char (hd s) then DecodeRuneInString s else (of_char (hd s), 1))"

lemma DecodeRuneInString_width: "s \<noteq> [] \<Longrightarrow> 0 < snd (DecodeRuneInString s)"
  by (cases s) (simp_all add: Let_def)

lemma headRune_width: "s \<noteq> [] \<Longrightarrow> 0 < snd (headRune s)"
  by (simp add: headRune_def DecodeRuneInString_width)

declare DecodeRuneInString.simps [simp del]

function quoteLoop :: "printTable \<Rightarrow> string \<Rightarrow> string" where
  "quoteLoop tbl s =
    (if s = [] then []
     else
       let (r, width) = headRune s in
       (if width = 1 \<and> r = RuneError
        then [CHR 0x5C, CHR ''x''] @ hexByte (of_char (hd s))
        else appendEscapedRune tbl r)
       @ quoteLoop tbl (drop width s))"
  by pat_completeness auto
termination
proof (relation "measure (\<lambda>(tbl, s). length s)")
  show "wf (measure (\<lambda>(tbl, s). length s))" by simp
next
  fix tbl :: printTable and s :: string and x :: "nat \<times> nat" and r width :: nat
  assume "s \<noteq> []" and "x = headRune s" and "(r, width) = x"
  then have "0 < width"
    using headRune_width [of s] by (metis snd_conv)
  with \<open>s \<noteq> []\<close> show "((tbl, drop width s), (tbl, s)) \<in> measure (\<lambda>(tbl, s). length s)"
    by simp
qed

declare quoteLoop.simps [simp del]

definition Quote :: "printTable \<Rightarrow> string \<Rightarrow> string" where
  "Quote tbl s = CHR ''\"'' # quoteLoop tbl s @ [CHR ''\"'']"

subsection \<open>\<^verbatim>\<open>strconv.Unquote\<close>, for a literal in double quotes\<close>

text \<open>
  The reading of the escaping convention: \<^verbatim>\<open>UnquoteChar\<close> decodes one character or one
  escape sequence (a letter escape, two, four or eight hexadecimal digits, three octal
  digits, an escaped backslash or quote), and the loop of \<^verbatim>\<open>Unquote\<close> collects the
  bytes up to the closing quote and rejects a raw newline. Only the form in double
  quotes is modelled (the one \<^verbatim>\<open>Quote\<close> writes), along the general path of the
  library function; the result \<open>None\<close> is the syntax error.
\<close>

definition unhex :: "char \<Rightarrow> nat option" where
  "unhex b =
    (let c = (of_char b :: nat) in
     if 0x30 \<le> c \<and> c \<le> 0x39 then Some (c - 0x30)
     else if 0x61 \<le> c \<and> c \<le> 0x66 then Some (c - 0x61 + 10)
     else if 0x41 \<le> c \<and> c \<le> 0x46 then Some (c - 0x41 + 10)
     else None)"

fun unhexDigits :: "string \<Rightarrow> nat \<Rightarrow> nat option" where
  "unhexDigits [] v = Some v"
| "unhexDigits (c # cs) v =
    (case unhex c of None \<Rightarrow> None | Some x \<Rightarrow> unhexDigits cs (v * 16 + x))"

fun unoctDigits :: "string \<Rightarrow> nat \<Rightarrow> nat option" where
  "unoctDigits [] v = Some v"
| "unoctDigits (c # cs) v =
    (if (of_char c :: nat) < 0x30 \<or> 0x37 < (of_char c :: nat) then None
     else unoctDigits cs (v * 8 + (of_char c - 0x30)))"

text \<open>The escape after a backslash: \<open>c\<close> is the byte after it, \<open>s\<close> what follows.\<close>

definition unquoteEscape :: "char \<Rightarrow> string \<Rightarrow> char \<Rightarrow> (nat \<times> bool \<times> string) option" where
  "unquoteEscape c s quote =
    (if c = CHR ''a'' then Some (7, False, s)
     else if c = CHR ''b'' then Some (8, False, s)
     else if c = CHR ''f'' then Some (12, False, s)
     else if c = CHR ''n'' then Some (10, False, s)
     else if c = CHR ''r'' then Some (13, False, s)
     else if c = CHR ''t'' then Some (9, False, s)
     else if c = CHR ''v'' then Some (11, False, s)
     else if c = CHR ''x'' \<or> c = CHR ''u'' \<or> c = CHR ''U'' then
       (let n = (if c = CHR ''x'' then 2 else if c = CHR ''u'' then 4 else 8) in
        if length s < n then None
        else
          (case unhexDigits (take n s) 0 of
             None \<Rightarrow> None
           | Some v \<Rightarrow>
               if c = CHR ''x'' then Some (v, False, drop n s)
               else if \<not> ValidRune v then None
               else Some (v, True, drop n s)))
     else if 0x30 \<le> (of_char c :: nat) \<and> (of_char c :: nat) \<le> 0x37 then
       (if length s < 2 then None
        else
          (case unoctDigits (take 2 s) (of_char c - 0x30) of
             None \<Rightarrow> None
           | Some v \<Rightarrow> if 255 < v then None else Some (v, False, drop 2 s)))
     else if c = CHR 0x5C then Some (0x5C, False, s)
     else if c = CHR 0x27 \<or> c = CHR 0x22 then
       (if c \<noteq> quote then None else Some (of_char c, False, s))
     else None)"

definition UnquoteChar :: "string \<Rightarrow> char \<Rightarrow> (nat \<times> bool \<times> string) option" where
  "UnquoteChar s quote =
    (case s of
       [] \<Rightarrow> None
     | c # rest \<Rightarrow>
         if c = quote \<and> (quote = CHR 0x27 \<or> quote = CHR 0x22) then None
         else if RuneSelf \<le> of_char c then
           (let (r, size) = DecodeRuneInString s in Some (r, True, drop size s))
         else if c \<noteq> CHR 0x5C then Some (of_char c, False, rest)
         else (case rest of [] \<Rightarrow> None | c1 # s2 \<Rightarrow> unquoteEscape c1 s2 quote))"

lemma unquoteEscape_tail:
  "unquoteEscape c s quote = Some (r, multibyte, tail) \<Longrightarrow> length tail \<le> length s"
  by (auto simp: unquoteEscape_def Let_def split: if_splits option.splits)

lemma UnquoteChar_shorter:
  assumes "UnquoteChar s quote = Some (r, multibyte, tail)"
  shows "length tail < length s"
proof (cases s)
  case Nil
  with assms show ?thesis by (simp add: UnquoteChar_def)
next
  case (Cons c rest)
  have width: "0 < snd (DecodeRuneInString s)"
    using Cons DecodeRuneInString_width [of s] by simp
  show ?thesis
  proof (cases "c = quote \<and> (quote = CHR 0x27 \<or> quote = CHR 0x22)")
    case True
    with assms Cons show ?thesis by (simp add: UnquoteChar_def)
  next
    case notquote: False
    show ?thesis
    proof (cases "RuneSelf \<le> of_char c")
      case True
      with assms Cons notquote width show ?thesis
        by (cases "DecodeRuneInString (c # rest)") (auto simp: UnquoteChar_def)
    next
      case ascii: False
      show ?thesis
      proof (cases "c = CHR 0x5C")
        case False
        with assms Cons notquote ascii show ?thesis
          by (auto simp: UnquoteChar_def)
      next
        case True
        with assms Cons notquote ascii obtain c1 s2 where
          "rest = c1 # s2" and "unquoteEscape c1 s2 quote = Some (r, multibyte, tail)"
          by (auto simp: UnquoteChar_def split: list.splits)
        with Cons unquoteEscape_tail [of c1 s2 quote r multibyte tail] show ?thesis
          by simp
      qed
    qed
  qed
qed

function unquoteLoop :: "string \<Rightarrow> string \<Rightarrow> (string \<times> string) option" where
  "unquoteLoop inp buf =
    (if inp \<noteq> [] \<and> hd inp \<noteq> CHR 0x22 then
       (case UnquoteChar inp (CHR 0x22) of
          None \<Rightarrow> None
        | Some (r, multibyte, rem) \<Rightarrow>
            if hd inp = CHR 0x0A then None
            else unquoteLoop rem
                   (buf @ (if r < RuneSelf \<or> \<not> multibyte then [char_of r] else AppendRune r)))
     else Some (buf, inp))"
  by pat_completeness auto
termination
proof (relation "measure (\<lambda>(inp, buf). length inp)")
  show "wf (measure (\<lambda>(inp, buf). length inp))" by simp
next
  fix inp buf :: string and x2 :: "nat \<times> bool \<times> string" and r :: nat and y :: "bool \<times> string"
    and multibyte :: bool and rem :: string
  assume "UnquoteChar inp (CHR 0x22) = Some x2" and "(r, y) = x2" and "(multibyte, rem) = y"
  then have "UnquoteChar inp (CHR 0x22) = Some (r, multibyte, rem)" by simp
  then have "length rem < length inp" by (rule UnquoteChar_shorter)
  then show "((rem, buf @ (if r < RuneSelf \<or> \<not> multibyte then [char_of r] else AppendRune r)), (inp, buf))
      \<in> measure (\<lambda>(inp, buf). length inp)"
    by simp
qed

declare unquoteLoop.simps [simp del]

definition Unquote :: "string \<Rightarrow> string option" where
  "Unquote s =
    (if length s < 2 \<or> hd s \<noteq> CHR 0x22 then None
     else
       (case unquoteLoop (tl s) [] of
          None \<Rightarrow> None
        | Some (buf, rest) \<Rightarrow> if rest = [CHR 0x22] then Some buf else None))"


section \<open>Normalising loosely typed input\<close>

text \<open>
  \<^verbatim>\<open>InterfaceToString\<close>: the loop body has no \<^verbatim>\<open>continue\<close> after the diagnostic, so
  \<^verbatim>\<open>tmpVal\<close> (the zero value, the empty string, when the assertion fails) is appended
  in both cases.
\<close>

definition parseValueError :: diagnostic where
  "parseValueError = errorDiag (''Error: couldn'' @ [CHR 0x27] @ ''t parse value to string!'')"

fun InterfaceToString :: "iface list \<Rightarrow> string list \<times> diagnostic list" where
  "InterfaceToString [] = ([], [])"
| "InterfaceToString (val # arr) =
    (let (tmpVal, ok) = (case val of IString s \<Rightarrow> (s, True) | _ \<Rightarrow> ([], False));
         d = (if \<not> ok then [parseValueError] else []);
         (result, diags) = InterfaceToString arr
     in (tmpVal # result, d @ diags))"

text \<open>
  \<^verbatim>\<open>mapInterfaceToStringMap\<close> ranges over the input map (here: its keys in the order
  of the association list) and stores the string values in \<open>target\<close>.
\<close>

fun mapInterfaceLoop ::
  "(string \<times> iface) list \<Rightarrow> string list \<Rightarrow> strmap \<Rightarrow> strmap \<times> diagnostic list" where
  "mapInterfaceLoop input [] target = (target, [])"
| "mapInterfaceLoop input (key # keys) target =
    (case map_of input key of
       Some (IString valueStr) \<Rightarrow>
         mapInterfaceLoop input keys (AList.update key valueStr target)
     | _ \<Rightarrow>
         (let (target', diags) = mapInterfaceLoop input keys target
          in (target',
              errorDiag (''Couldn'' @ [CHR 0x27] @ ''t parse variable '' @ key @ '' to string'')
              # diags)))"

definition mapInterfaceToStringMap ::
  "(string \<times> iface) list \<Rightarrow> strmap \<Rightarrow> strmap \<times> diagnostic list" where
  "mapInterfaceToStringMap input target = mapInterfaceLoop input (mapKeys input) target"

text \<open>Reading a field of an entry and asserting its dynamic type.\<close>

definition asString :: "iface option \<Rightarrow> string \<times> bool" where
  "asString v = (case v of Some (IString s) \<Rightarrow> (s, True) | _ \<Rightarrow> ([], False))"

definition asSlice :: "iface option \<Rightarrow> iface list \<times> bool" where
  "asSlice v = (case v of Some (IList xs) \<Rightarrow> (xs, True) | _ \<Rightarrow> ([], False))"

definition asMap :: "iface option \<Rightarrow> (string \<times> iface) list \<times> bool" where
  "asMap v = (case v of Some (IMap m) \<Rightarrow> (m, True) | _ \<Rightarrow> ([], False))"

definition missingName :: "string \<Rightarrow> diagnostic" where
  "missingName kind =
    errorDiag (''Invalid '' @ kind @ '' definition: missing '' @ [CHR 0x27] @ ''name'' @ [CHR 0x27])"

text \<open>
  One round of the loop of \<^verbatim>\<open>ExpandInventoryHosts\<close>: the hosts appended (one or none)
  and the diagnostics appended.
\<close>

definition expandHostEntry :: "iface \<Rightarrow> InventoryHost list \<times> diagnostic list" where
  "expandHostEntry entry =
    (case entry of
       IMap entryMap \<Rightarrow>
         (let (name, nameOK) = asString (map_of entryMap ''name'') in
          if \<not> nameOK \<or> name = [] then ([], [missingName ''host''])
          else
            let (groupsRaw0, groupsSet) = asSlice (map_of entryMap ''groups'');
                groupsRaw = (if \<not> groupsSet then [] else groupsRaw0);
                (groups, groupDiags) = InterfaceToString groupsRaw;
                (varsRaw, ok) = asMap (map_of entryMap ''variables'');
                (variables, varDiags) =
                  (if ok then mapInterfaceToStringMap varsRaw [] else ([], []))
            in ([\<lparr>Name = name, Groups = groups, Variables = variables\<rparr>],
                groupDiags @ varDiags))
     | _ \<Rightarrow> ([], [errorDiag ''Invalid host definition: expected map input'']))"

fun ExpandInventoryHosts :: "iface list \<Rightarrow> InventoryHost list \<times> diagnostic list" where
  "ExpandInventoryHosts [] = ([], [])"
| "ExpandInventoryHosts (entry # raw) =
    (let (h, d) = expandHostEntry entry; (hosts, diags) = ExpandInventoryHosts raw
     in (h @ hosts, d @ diags))"

definition expandGroupEntry :: "iface \<Rightarrow> InventoryGroup list \<times> diagnostic list" where
  "expandGroupEntry entry =
    (case entry of
       IMap entryMap \<Rightarrow>
         (let (name, nameOK) = asString (map_of entryMap ''name'') in
          if \<not> nameOK \<or> name = [] then ([], [missingName ''group''])
          else
            let (childrenRaw0, childrenSet) = asSlice (map_of entryMap ''children'');
                childrenRaw = (if \<not> childrenSet then [] else childrenRaw0);
                (children, childrenDiags) = InterfaceToString childrenRaw;
                (varsRaw, ok) = asMap (map_of entryMap ''variables'');
                (variables, varDiags) =
                  (if ok then mapInterfaceToStringMap varsRaw [] else ([], []))
            in ([\<lparr>GroupName = name, Children = children, GroupVariables = variables\<rparr>],
                childrenDiags @ varDiags))
     | _ \<Rightarrow> ([], [errorDiag ''Invalid group definition: expected map input'']))"

fun ExpandInventoryGroups :: "iface list \<Rightarrow> InventoryGroup list \<times> diagnostic list" where
  "ExpandInventoryGroups [] = ([], [])"
| "ExpandInventoryGroups (entry # raw) =
    (let (g, d) = expandGroupEntry entry; (groups, diags) = ExpandInventoryGroups raw
     in (g @ groups, d @ diags))"

section \<open>The inventory content builder\<close>

definition formatInventoryHostLine :: "printTable \<Rightarrow> string \<Rightarrow> strmap \<Rightarrow> string" where
  "formatInventoryHostLine tbl hostname variables =
    (if mapLen variables = 0 then hostname
     else hostname @
       concat (map (\<lambda>key. '' '' @ key @ ''='' @ Quote tbl (mapGet variables key))
                   (sortedKeys variables)))"

definition formatInventoryVariables :: "printTable \<Rightarrow> strmap \<Rightarrow> string" where
  "formatInventoryVariables tbl vars =
    concat (map (\<lambda>key. key @ ''='' @ Quote tbl (mapGet vars key) @ [CHR 0x0A])
                (sortedKeys vars))"

text \<open>
  The four local maps of \<^verbatim>\<open>buildInventoryFileContent\<close> and its diagnostics. The set
  \<^verbatim>\<open>groupNames\<close> is read only through the sorted slice of its keys.
\<close>

record acc =
  groupHosts :: "string \<rightharpoonup> string list"
  groupVars :: "string \<rightharpoonup> strmap"
  groupChildren :: "string \<rightharpoonup> string list"
  groupNames :: "string set"
  diags :: "diagnostic list"

definition emptyAcc :: acc where
  "emptyAcc = \<lparr>groupHosts = Map.empty, groupVars = Map.empty, groupChildren = Map.empty,
               groupNames = {}, diags = []\<rparr>"

text \<open>Reading \<^verbatim>\<open>groupHosts[groupName]\<close>: a missing key reads as the nil slice.\<close>

definition hostsOf :: "acc \<Rightarrow> string \<Rightarrow> string list" where
  "hostsOf st groupName = (case groupHosts st groupName of Some ls \<Rightarrow> ls | None \<Rightarrow> [])"

text \<open>The body of the first loop (over the groups).\<close>

definition addGroup :: "InventoryGroup \<Rightarrow> acc \<Rightarrow> acc" where
  "addGroup grp st =
    (if GroupName grp = [] then
       st\<lparr>diags := diags st @ [errorDiag ''Inventory group is missing a name'']\<rparr>
     else
       let st1 = st\<lparr>groupNames := insert (GroupName grp) (groupNames st)\<rparr>;
           st2 = (if 0 < length (Children grp)
                  then st1\<lparr>groupChildren := (groupChildren st1)(GroupName grp \<mapsto> Children grp)\<rparr>
                  else st1);
           st3 = (if 0 < mapLen (GroupVariables grp)
                  then st2\<lparr>groupVars := (groupVars st2)(GroupName grp \<mapsto> GroupVariables grp)\<rparr>
                  else st2)
       in st3)"

text \<open>
  The body of the inner loop (over the groups of one host), the groups a host is filed
  under, and the body of the second loop (over the hosts).
\<close>

definition addHostLine :: "string \<Rightarrow> string \<Rightarrow> acc \<Rightarrow> acc" where
  "addHostLine line groupName st =
    (if groupName = [] then st
     else st\<lparr>groupNames := insert groupName (groupNames st),
             groupHosts := (groupHosts st)(groupName \<mapsto> hostsOf st groupName @ [line])\<rparr>)"

definition effectiveGroups :: "InventoryHost \<Rightarrow> string list" where
  "effectiveGroups host =
    (if length (Groups host) = 0 then [DefaultHostGroup] else Groups host)"

definition addHost :: "printTable \<Rightarrow> InventoryHost \<Rightarrow> acc \<Rightarrow> acc" where
  "addHost tbl host st =
    (if Name host = [] then
       st\<lparr>diags := diags st @ [errorDiag ''Inventory host is missing a name'']\<rparr>
     else
       let hostGroups = effectiveGroups host;
           line = formatInventoryHostLine tbl (Name host) (Variables host)
       in fold (addHostLine line) hostGroups st)"

definition collect :: "printTable \<Rightarrow> InventoryHost list \<Rightarrow> InventoryGroup list \<Rightarrow> acc" where
  "collect tbl hosts groups = fold (addHost tbl) hosts (fold addGroup groups emptyAcc)"

definition sortedGroupNames :: "acc \<Rightarrow> string list" where
  "sortedGroupNames st = sorted_list_of_set (groupNames st)"

text \<open>The body of the rendering loop: what is written to the builder for one group.\<close>

definition renderGroup :: "printTable \<Rightarrow> acc \<Rightarrow> string \<Rightarrow> string" where
  "renderGroup tbl st groupName =
    ''['' @ groupName @ '']'' @ [CHR 0x0A]
    @ concat (map (\<lambda>line. line @ [CHR 0x0A]) (sort (hostsOf st groupName)))
    @ [CHR 0x0A]
    @ (case groupVars st groupName of
         Some vars \<Rightarrow>
           if 0 < mapLen vars
           then ''['' @ groupName @ '':vars]'' @ [CHR 0x0A]
                @ formatInventoryVariables tbl vars @ [CHR 0x0A]
           else []
       | None \<Rightarrow> [])
    @ (case groupChildren st groupName of
         Some children \<Rightarrow>
           if 0 < length children
           then ''['' @ groupName @ '':children]'' @ [CHR 0x0A]
                @ concat (map (\<lambda>child. child @ [CHR 0x0A]) (sort children)) @ [CHR 0x0A]
           else []
       | None \<Rightarrow> [])"

definition buildInventoryFileContent ::
  "printTable \<Rightarrow> InventoryHost list \<Rightarrow> InventoryGroup list \<Rightarrow> string \<times> diagnostic list" where
  "buildInventoryFileContent tbl hosts groups =
    (let st = collect tbl hosts groups
     in (concat (map (renderGroup tbl st) (sortedGroupNames st)), diags st))"

section \<open>Writing the inventory file\<close>

text \<open>
  The file system is a collaborator. \<^verbatim>\<open>os.CreateTemp\<close> gives the new file (here: its
  name) and a nil error, or a nil \<^verbatim>\<open>*os.File\<close> and an error (here: its message).
  The method \<^verbatim>\<open>Name\<close> of a file reads a field through its receiver, so on the nil
  pointer it panics; the deferred \<^verbatim>\<open>Close\<close> and the log line change nothing that is returned.
\<close>

record osEnv =
  CreateTemp :: "string \<Rightarrow> string + string"
  WriteString :: "string \<Rightarrow> string \<Rightarrow> string option"

datatype 'a outcome = Returns 'a | Panics string

definition nilDereference :: string where
  "nilDereference = ''runtime error: invalid memory address or nil pointer dereference''"

definition fileName :: "string option \<Rightarrow> string outcome" where
  "fileName fileInfo = (case fileInfo of None \<Rightarrow> Panics nilDereference | Some n \<Rightarrow> Returns n)"

text \<open>What a call that returns leaves behind: the two results and the text handed to \<^verbatim>\<open>WriteString\<close>.\<close>

record buildResult =
  path :: string
  resultDiags :: "diagnostic list"
  written :: string

text \<open>Lines 181 to 200: the hosts the inventory is built from, and the diagnostics of the fallback.\<close>

definition fallbackHosts ::
  "string \<Rightarrow> int \<Rightarrow> iface list \<Rightarrow> InventoryHost list \<Rightarrow> InventoryHost list \<times> diagnostic list" where
  "fallbackHosts hostname port hostgroups inventoryHosts =
    (if length inventoryHosts = 0 then
       let (hostGroups0, hostGroupDiags) = InterfaceToString hostgroups;
           hostGroups = (if length hostGroups0 = 0 then hostGroups0 @ [DefaultHostGroup]
                         else hostGroups0);
           hostVars = (if port \<noteq> - 1 then AList.update ''ansible_port'' (Itoa port) [] else [])
       in (inventoryHosts @ [\<lparr>Name = hostname, Groups = hostGroups, Variables = hostVars\<rparr>],
           hostGroupDiags)
     else (inventoryHosts, []))"

definition BuildPlaybookInventory ::
  "printTable \<Rightarrow> osEnv \<Rightarrow> string \<Rightarrow> string \<Rightarrow> int \<Rightarrow> iface list \<Rightarrow> InventoryHost list
    \<Rightarrow> InventoryGroup list \<Rightarrow> buildResult outcome" where
  "BuildPlaybookInventory tbl env inventoryDest hostname port hostgroups inventoryHosts
      inventoryGroups =
    (let (fileInfo, createDiags) =
           (case CreateTemp env inventoryDest of
              Inl err \<Rightarrow> (None, [errorDiag (''Fail to create inventory file: '' @ err)])
            | Inr f \<Rightarrow> (Some f, []))
     in case fileName fileInfo of
          Panics msg \<Rightarrow> Panics msg
        | Returns tempFileName \<Rightarrow>
            let (hosts, hostGroupDiags) = fallbackHosts hostname port hostgroups inventoryHosts;
                (content, buildDiags) = buildInventoryFileContent tbl hosts inventoryGroups;
                writeDiags =
                  (case WriteString env tempFileName content of
                     Some err \<Rightarrow> [errorDiag (''Fail to write inventory: '' @ err)]
                   | None \<Rightarrow> [])
            in Returns \<lparr>path = tempFileName,
                        resultDiags = createDiags @ hostGroupDiags @ buildDiags @ writeDiags,
                        written = content\<rparr>)"

section \<open>Views of the builder's state\<close>

text \<open>
  The lines one host adds under the heading of group \<open>g\<close>, and the group names it
  registers: read off the second loop of \<^verbatim>\<open>buildInventoryFileContent\<close>.
\<close>

definition hostContribution :: "printTable \<Rightarrow> InventoryHost \<Rightarrow> string \<Rightarrow> string list" where
  "hostContribution tbl h g =
    (if Name h = [] then []
     else map (\<lambda>_. formatInventoryHostLine tbl (Name h) (Variables h))
            (filter (\<lambda>g'. g' = g \<and> g' \<noteq> []) (effectiveGroups h)))"

definition hostGroupNames :: "InventoryHost \<Rightarrow> string set" where
  "hostGroupNames h = (if Name h = [] then {} else set (effectiveGroups h) - {[]})"

text \<open>
  The document format of the specification: a section is a heading, the host lines, a
  blank line, then a \<^verbatim>\<open>:vars\<close> block and a \<^verbatim>\<open>:children\<close> block, each written only
  when it has an entry and each closed by a blank line. \<open>secVars\<close> holds the keys with
  the values already quoted.
\<close>

record groupSection =
  secName :: string
  secHosts :: "string list"
  secVars :: "(string \<times> string) list"
  secChildren :: "string list"

definition renderSection :: "groupSection \<Rightarrow> string" where
  "renderSection s =
    ''['' @ secName s @ '']'' @ [CHR 0x0A]
    @ concat (map (\<lambda>l. l @ [CHR 0x0A]) (secHosts s)) @ [CHR 0x0A]
    @ (if secVars s = [] then []
       else ''['' @ secName s @ '':vars]'' @ [CHR 0x0A]
            @ concat (map (\<lambda>(k, q). k @ ''='' @ q @ [CHR 0x0A]) (secVars s)) @ [CHR 0x0A])
    @ (if secChildren s = [] then []
       else ''['' @ secName s @ '':children]'' @ [CHR 0x0A]
            @ concat (map (\<lambda>c. c @ [CHR 0x0A]) (secChildren s)) @ [CHR 0x0A])"

definition varsOf :: "acc \<Rightarrow> string \<Rightarrow> strmap" where
  "varsOf st g = (case groupVars st g of Some vars \<Rightarrow> vars | None \<Rightarrow> [])"

definition childrenOf :: "acc \<Rightarrow> string \<Rightarrow> string list" where
  "childrenOf st g = (case groupChildren st g of Some children \<Rightarrow> children | None \<Rightarrow> [])"

definition sectionOf :: "printTable \<Rightarrow> acc \<Rightarrow> string \<Rightarrow> groupSection" where
  "sectionOf tbl st g =
    \<lparr>secName = g,
     secHosts = sort (hostsOf st g),
     secVars = map (\<lambda>k. (k, Quote tbl (mapGet (varsOf st g) k))) (sortedKeys (varsOf st g)),
     secChildren = sort (childrenOf st g)\<rparr>"

text \<open>
  A table that declares no rune above Latin-1 printable, and a file system whose
  \<^verbatim>\<open>CreateTemp\<close> refuses a pattern with a path separator (as \<^verbatim>\<open>os.CreateTemp\<close>
  does) and whose writes succeed: the concrete inputs of the examples below.
\<close>

definition asciiTable :: printTable where
  "asciiTable r = False"

definition rejectingEnv :: osEnv where
  "rejectingEnv =
    \<lparr>CreateTemp = (\<lambda>pattern. if CHR ''/'' \<in> set pattern
                               then Inl ''pattern contains path separator''
                               else Inr (''/tmp/'' @ pattern)),
     WriteString = (\<lambda>f content. None)\<rparr>"

definition decimalNat :: "string \<Rightarrow> nat" where
  "decimalNat s = foldl (\<lambda>n c. 10 * n + (of_char c - 48)) 0 s"

section \<open>Properties of the library functions\<close>

subsection \<open>Quoting and un-quoting are inverse\<close>

lemma unhex_lowerhex: "x < 16 \<Longrightarrow> unhex (lowerhex x) = Some x"
proof -
  have "\<forall>x\<in>set [0..<16]. unhex (lowerhex x) = Some x"
    by (simp add: upt_rec lowerhex_def unhex_def)
  then show "x < 16 \<Longrightarrow> unhex (lowerhex x) = Some x"
    by simp
qed

lemma unhexDigits_hexRune:
  "unhexDigits (hexRune shifts r) v =
     Some (fold (\<lambda>s v. v * 16 + (r div 2 ^ s) mod 16) shifts v)"
  by (induction shifts arbitrary: v) (simp_all add: hexRune_def unhex_lowerhex)

lemma fold_hex_digits:
  "fold (\<lambda>s v. v * 16 + (r div 2 ^ s) mod 16) (map (\<lambda>i. 4 * i) (rev [0..<k])) v
     = v * 16 ^ k + (r :: nat) mod 16 ^ k"
proof (induction k arbitrary: v)
  case 0
  show ?case by simp
next
  case (Suc k)
  let ?f = "\<lambda>s v. v * 16 + (r div 2 ^ s) mod 16"
  have pow: "(2::nat) ^ (4 * k) = 16 ^ k"
    by (simp add: power_mult)
  have split_mod: "r mod (16 ^ k * 16) = 16 ^ k * (r div 16 ^ k mod 16) + r mod 16 ^ k"
    by (rule mod_mult2_eq)
  have "fold ?f (map (\<lambda>i. 4 * i) (rev [0..<Suc k])) v
      = fold ?f (map (\<lambda>i. 4 * i) (rev [0..<k])) (v * 16 + (r div 2 ^ (4 * k)) mod 16)"
    by simp
  also have "\<dots> = (v * 16 + (r div 16 ^ k) mod 16) * 16 ^ k + r mod 16 ^ k"
    by (simp only: Suc pow)
  also have "\<dots> = v * 16 ^ Suc k + r mod 16 ^ Suc k"
    using split_mod by (simp add: algebra_simps)
  finally show ?case .
qed

lemma shifts4: "[12, 8, 4, 0] = map (\<lambda>i. 4 * i) (rev [0..<4])"
  by (simp add: upt_rec)

lemma shifts8: "[28, 24, 20, 16, 12, 8, 4, 0] = map (\<lambda>i. 4 * i) (rev [0..<8])"
  by (simp add: upt_rec)

lemma unhexDigits_hexByte: "n < 256 \<Longrightarrow> unhexDigits (hexByte n) 0 = Some n"
  by (simp add: hexByte_def unhex_lowerhex)

lemma unhexDigits_hexRune4:
  "r < 0x10000 \<Longrightarrow> unhexDigits (hexRune [12, 8, 4, 0] r) 0 = Some r"
  by (simp only: shifts4 unhexDigits_hexRune fold_hex_digits) simp

lemma unhexDigits_hexRune8:
  "r < 0x100000000 \<Longrightarrow> unhexDigits (hexRune [28, 24, 20, 16, 12, 8, 4, 0] r) 0 = Some r"
  by (simp only: shifts8 unhexDigits_hexRune fold_hex_digits) simp

lemma digit_div: "(x :: nat) < m \<Longrightarrow> (q * m + x) div m = q"
  by simp

lemma digit_mod: "(x :: nat) < m \<Longrightarrow> (q * m + x) mod m = x"
  by simp

lemma base64_three:
  fixes a b c :: nat
  assumes "b < 64" and "c < 64"
  shows "(a * 4096 + b * 64 + c) div 4096 = a"
    and "(a * 4096 + b * 64 + c) div 64 mod 64 = b"
    and "(a * 4096 + b * 64 + c) mod 64 = c"
proof -
  have low: "b * 64 + c < 4096"
    using assms by simp
  have e1: "a * 4096 + b * 64 + c = a * 4096 + (b * 64 + c)"
    by (simp only: add.assoc)
  have e2: "a * 4096 + b * 64 + c = (a * 64 + b) * 64 + c"
    by simp
  show "(a * 4096 + b * 64 + c) div 4096 = a"
    unfolding e1 by (rule digit_div [OF low])
  show "(a * 4096 + b * 64 + c) div 64 mod 64 = b"
    unfolding e2 by (simp only: digit_div [OF assms(2)] digit_mod [OF assms(1)])
  show "(a * 4096 + b * 64 + c) mod 64 = c"
    unfolding e2 by (rule digit_mod [OF assms(2)])
qed

lemma base64_four:
  fixes a b c d :: nat
  assumes "b < 64" and "c < 64" and "d < 64"
  shows "(a * 262144 + b * 4096 + c * 64 + d) div 262144 = a"
    and "(a * 262144 + b * 4096 + c * 64 + d) div 4096 mod 64 = b"
    and "(a * 262144 + b * 4096 + c * 64 + d) div 64 mod 64 = c"
    and "(a * 262144 + b * 4096 + c * 64 + d) mod 64 = d"
proof -
  have low: "b * 4096 + c * 64 + d < 262144"
    using assms by simp
  have low2: "c * 64 + d < 4096"
    using assms by simp
  have e1: "a * 262144 + b * 4096 + c * 64 + d = a * 262144 + (b * 4096 + c * 64 + d)"
    by (simp only: add.assoc)
  have e2: "a * 262144 + b * 4096 + c * 64 + d = (a * 64 + b) * 4096 + (c * 64 + d)"
    by simp
  have e3: "a * 262144 + b * 4096 + c * 64 + d = ((a * 64 + b) * 64 + c) * 64 + d"
    by simp
  show "(a * 262144 + b * 4096 + c * 64 + d) div 262144 = a"
    unfolding e1 by (rule digit_div [OF low])
  show "(a * 262144 + b * 4096 + c * 64 + d) div 4096 mod 64 = b"
    unfolding e2 by (simp only: digit_div [OF low2] digit_mod [OF assms(1)])
  show "(a * 262144 + b * 4096 + c * 64 + d) div 64 mod 64 = c"
    unfolding e3 by (simp only: digit_div [OF assms(3)] digit_mod [OF assms(2)])
  show "(a * 262144 + b * 4096 + c * 64 + d) mod 64 = d"
    unfolding e3 by (rule digit_mod [OF assms(3)])
qed

lemma lead_bits:
  fixes n :: nat
  shows "128 \<le> n \<Longrightarrow> n \<le> 191 \<Longrightarrow> n mod 64 = n - 128"
    and "192 \<le> n \<Longrightarrow> n < 224 \<Longrightarrow> n mod 32 = n - 192"
    and "224 \<le> n \<Longrightarrow> n < 240 \<Longrightarrow> n mod 16 = n - 224"
    and "240 \<le> n \<Longrightarrow> n < 248 \<Longrightarrow> n mod 8 = n - 240"
  by (simp_all add: le_mod_geq)


lemma utf8_two:
  assumes "0xC2 \<le> (of_char c0 :: nat)" and "(of_char c0 :: nat) < 0xE0"
    and "contByte (of_char c1)"
  shows "\<exists>r. (\<forall>t. DecodeRuneInString (c0 # c1 # t) = (r, 2)) \<and> AppendRune r = [c0, c1]
             \<and> ValidRune r \<and> 0x80 \<le> r"
proof -
  define a b where "a = (of_char c0 :: nat) - 192" and "b = (of_char c1 :: nat) - 128"
  have n0: "(of_char c0 :: nat) = 192 + a" and n1: "(of_char c1 :: nat) = 128 + b"
    and bounds: "2 \<le> a" "a < 32" "b < 64"
    using assms by (auto simp: a_def b_def contByte_def)
  have m0: "(of_char c0 :: nat) mod 32 = a" and m1: "(of_char c1 :: nat) mod 64 = b"
    using assms by (simp_all add: lead_bits a_def b_def contByte_def)
  have dec: "DecodeRuneInString (c0 # c1 # t) = (a * 64 + b, 2)" for t
    using assms by (simp add: DecodeRuneInString.simps Let_def m0 m1 contByte_def)
  have c0: "char_of (192 + a) = c0" and c1: "char_of (128 + b) = c1"
    by (simp_all flip: n0 n1)
  have range: "128 \<le> a * 64 + b" "a * 64 + b \<le> 2047"
    using bounds by simp_all
  have enc: "AppendRune (a * 64 + b) = [c0, c1]"
    using range bounds by (simp add: AppendRune_def digit_div c0 c1)
  have "ValidRune (a * 64 + b)"
    using range by (simp add: ValidRune_def)
  with dec enc range show ?thesis
    by blast
qed


lemma utf8_three:
  assumes "0xE0 \<le> (of_char c0 :: nat)" and "(of_char c0 :: nat) < 0xF0"
    and "(if (of_char c0 :: nat) = 0xE0 then 0xA0 else 0x80) \<le> (of_char c1 :: nat)"
    and "(of_char c1 :: nat) \<le> (if (of_char c0 :: nat) = 0xED then 0x9F else 0xBF)"
    and "contByte (of_char c2)"
  shows "\<exists>r. (\<forall>t. DecodeRuneInString (c0 # c1 # c2 # t) = (r, 3)) \<and> AppendRune r = [c0, c1, c2]
             \<and> ValidRune r \<and> 0x80 \<le> r"
proof -
  define a b c where "a = (of_char c0 :: nat) - 224" and "b = (of_char c1 :: nat) - 128"
    and "c = (of_char c2 :: nat) - 128"
  have cont1: "128 \<le> (of_char c1 :: nat)" "(of_char c1 :: nat) \<le> 191"
    using assms(3,4) by (auto split: if_splits)
  have n0: "(of_char c0 :: nat) = 224 + a" and n1: "(of_char c1 :: nat) = 128 + b"
    and n2: "(of_char c2 :: nat) = 128 + c"
    and bounds: "a < 16" "b < 64" "c < 64"
    using assms(1,2,5) cont1 by (auto simp: a_def b_def c_def contByte_def)
  have lo: "a = 0 \<Longrightarrow> 32 \<le> b" and hi: "a = 13 \<Longrightarrow> b < 32"
    using assms(1,2,3,4) by (auto simp: a_def b_def split: if_splits)
  have m0: "(of_char c0 :: nat) mod 16 = a" and m1: "(of_char c1 :: nat) mod 64 = b"
    and m2: "(of_char c2 :: nat) mod 64 = c"
    using assms(1,2,5) cont1 by (simp_all add: lead_bits a_def b_def c_def contByte_def)
  have dec: "DecodeRuneInString (c0 # c1 # c2 # t) = (a * 4096 + b * 64 + c, 3)" for t
    using assms cont1
    by (auto simp: DecodeRuneInString.simps Let_def m0 m1 m2 split: if_splits)
  have c0: "char_of (224 + a) = c0" and c1: "char_of (128 + b) = c1"
    and c2: "char_of (128 + c) = c2"
    by (simp_all flip: n0 n1 n2)
  have range: "2048 \<le> a * 4096 + b * 64 + c" "a * 4096 + b * 64 + c \<le> 65535"
    using bounds lo by (cases "a = 0"; simp)+
  have surrogate: "a * 4096 + b * 64 + c < 55296 \<or> 57343 < a * 4096 + b * 64 + c"
  proof -
    consider "a < 13" | "a = 13" | "13 < a" by linarith
    then show ?thesis
      using bounds hi by cases simp_all
  qed
  have enc: "AppendRune (a * 4096 + b * 64 + c) = [c0, c1, c2]"
    using range surrogate
    by (auto simp: AppendRune_def MaxRune_def base64_three [OF bounds(2,3)] c0 c1 c2)
  have "ValidRune (a * 4096 + b * 64 + c)"
    using range surrogate by (auto simp: ValidRune_def MaxRune_def)
  moreover have "128 \<le> a * 4096 + b * 64 + c"
    using range by simp
  ultimately show ?thesis
    using dec enc by blast
qed

lemma utf8_four:
  assumes "0xF0 \<le> (of_char c0 :: nat)" and "(of_char c0 :: nat) \<le> 0xF4"
    and "(if (of_char c0 :: nat) = 0xF0 then 0x90 else 0x80) \<le> (of_char c1 :: nat)"
    and "(of_char c1 :: nat) \<le> (if (of_char c0 :: nat) = 0xF4 then 0x8F else 0xBF)"
    and "contByte (of_char c2)" and "contByte (of_char c3)"
  shows "\<exists>r. (\<forall>t. DecodeRuneInString (c0 # c1 # c2 # c3 # t) = (r, 4))
             \<and> AppendRune r = [c0, c1, c2, c3] \<and> ValidRune r \<and> 0x80 \<le> r"
proof -
  define a b c d where "a = (of_char c0 :: nat) - 240" and "b = (of_char c1 :: nat) - 128"
    and "c = (of_char c2 :: nat) - 128" and "d = (of_char c3 :: nat) - 128"
  have cont1: "128 \<le> (of_char c1 :: nat)" "(of_char c1 :: nat) \<le> 191"
    using assms(3,4) by (auto split: if_splits)
  have n0: "(of_char c0 :: nat) = 240 + a" and n1: "(of_char c1 :: nat) = 128 + b"
    and n2: "(of_char c2 :: nat) = 128 + c" and n3: "(of_char c3 :: nat) = 128 + d"
    and bounds: "a \<le> 4" "b < 64" "c < 64" "d < 64"
    using assms(1,2,5,6) cont1 by (auto simp: a_def b_def c_def d_def contByte_def)
  have lo: "a = 0 \<Longrightarrow> 16 \<le> b" and hi: "a = 4 \<Longrightarrow> b < 16"
    using assms(1,2,3,4) by (auto simp: a_def b_def split: if_splits)
  have m0: "(of_char c0 :: nat) mod 8 = a" and m1: "(of_char c1 :: nat) mod 64 = b"
    and m2: "(of_char c2 :: nat) mod 64 = c" and m3: "(of_char c3 :: nat) mod 64 = d"
    using assms(1,2,5,6) cont1
    by (simp_all add: lead_bits a_def b_def c_def d_def contByte_def)
  have dec: "DecodeRuneInString (c0 # c1 # c2 # c3 # t)
      = (a * 262144 + b * 4096 + c * 64 + d, 4)" for t
    using assms by (simp add: DecodeRuneInString.simps Let_def m0 m1 m2 m3)
  have c0: "char_of (240 + a) = c0" and c1: "char_of (128 + b) = c1"
    and c2: "char_of (128 + c) = c2" and c3: "char_of (128 + d) = c3"
    by (simp_all flip: n0 n1 n2 n3)
  have low: "65536 \<le> a * 262144 + b * 4096 + c * 64 + d"
    using lo by (cases "a = 0") simp_all
  have high: "a * 262144 + b * 4096 + c * 64 + d \<le> 1114111"
  proof (cases "a = 4")
    case True
    with hi bounds show ?thesis by simp
  next
    case False
    with bounds have "a \<le> 3" by simp
    with bounds show ?thesis by simp
  qed
  have enc: "AppendRune (a * 262144 + b * 4096 + c * 64 + d) = [c0, c1, c2, c3]"
    using low high
    by (auto simp: AppendRune_def MaxRune_def base64_four [OF bounds(2,3,4)] c0 c1 c2 c3)
  have "ValidRune (a * 262144 + b * 4096 + c * 64 + d)"
    using low high by (auto simp: ValidRune_def MaxRune_def)
  moreover have "128 \<le> a * 262144 + b * 4096 + c * 64 + d"
    using low by simp
  ultimately show ?thesis
    using dec enc by blast
qed

lemma decode_multibyte:
  assumes n0: "0x80 \<le> (of_char c0 :: nat)"
    and dec: "DecodeRuneInString (c0 # s) = (r, w)"
    and ok: "\<not> (w = 1 \<and> r = RuneError)"
  shows "w \<le> length (c0 # s) \<and> AppendRune r = take w (c0 # s) \<and> ValidRune r \<and> 0x80 \<le> r
         \<and> (\<forall>rest. DecodeRuneInString (take w (c0 # s) @ rest) = (r, w))"
proof -
  have lead: "0xC2 \<le> (of_char c0 :: nat)" "(of_char c0 :: nat) \<le> 0xF4"
  proof -
    have "DecodeRuneInString (c0 # s) = (RuneError, 1)"
      if "(of_char c0 :: nat) < 0xC2 \<or> 0xF4 < (of_char c0 :: nat)"
      using that n0 by (auto simp: DecodeRuneInString.simps Let_def)
    with dec ok show "0xC2 \<le> (of_char c0 :: nat)" "(of_char c0 :: nat) \<le> 0xF4"
      by force+
  qed
  consider (two) "(of_char c0 :: nat) < 0xE0"
    | (three) "0xE0 \<le> (of_char c0 :: nat)" "(of_char c0 :: nat) < 0xF0"
    | (four) "0xF0 \<le> (of_char c0 :: nat)"
    by linarith
  then show ?thesis
  proof cases
    case two
    have long: "\<not> length (c0 # s) < 2"
    proof
      assume "length (c0 # s) < 2"
      then have "DecodeRuneInString (c0 # s) = (RuneError, 1)"
        using lead two by (simp add: DecodeRuneInString.simps Let_def)
      with dec ok show False by simp
    qed
    then obtain c1 t where s: "s = c1 # t"
      by (cases s) auto
    have cont: "contByte (of_char c1)"
    proof (rule ccontr)
      assume "\<not> contByte (of_char c1)"
      then have "DecodeRuneInString (c0 # s) = (RuneError, 1)"
        using lead two s by (auto simp: DecodeRuneInString.simps Let_def contByte_def)
      with dec ok show False by simp
    qed
    from utf8_two [OF lead(1) two cont] obtain r' where
      r': "\<forall>t. DecodeRuneInString (c0 # c1 # t) = (r', 2)" "AppendRune r' = [c0, c1]"
        "ValidRune r'" "0x80 \<le> r'"
      by blast
    with dec s have "r = r'" "w = 2" by simp_all
    with r' s show ?thesis by simp
  next
    case three
    have long: "\<not> length (c0 # s) < 3"
    proof
      assume "length (c0 # s) < 3"
      then have "DecodeRuneInString (c0 # s) = (RuneError, 1)"
        using lead three by (simp add: DecodeRuneInString.simps Let_def)
      with dec ok show False by simp
    qed
    then obtain c1 c2 t where s: "s = c1 # c2 # t"
      by (cases s; cases "tl s") auto
    have cont: "(if (of_char c0 :: nat) = 0xE0 then 0xA0 else 0x80) \<le> (of_char c1 :: nat)
        \<and> (of_char c1 :: nat) \<le> (if (of_char c0 :: nat) = 0xED then 0x9F else 0xBF)
        \<and> contByte (of_char c2)"
    proof (rule ccontr)
      assume "\<not> ?thesis"
      then have "DecodeRuneInString (c0 # s) = (RuneError, 1)"
        using lead three s by (auto simp: DecodeRuneInString.simps Let_def split: if_splits)
      with dec ok show False by simp
    qed
    from utf8_three [OF three(1) three(2)] cont obtain r' where
      r': "\<forall>t. DecodeRuneInString (c0 # c1 # c2 # t) = (r', 3)" "AppendRune r' = [c0, c1, c2]"
        "ValidRune r'" "0x80 \<le> r'"
      by blast
    with dec s have "r = r'" "w = 3" by simp_all
    with r' s show ?thesis by simp
  next
    case four
    have long: "\<not> length (c0 # s) < 4"
    proof
      assume "length (c0 # s) < 4"
      then have "DecodeRuneInString (c0 # s) = (RuneError, 1)"
        using lead four by (simp add: DecodeRuneInString.simps Let_def)
      with dec ok show False by simp
    qed
    then obtain c1 c2 c3 t where s: "s = c1 # c2 # c3 # t"
      by (cases s; cases "tl s"; cases "tl (tl s)") auto
    have cont: "(if (of_char c0 :: nat) = 0xF0 then 0x90 else 0x80) \<le> (of_char c1 :: nat)
        \<and> (of_char c1 :: nat) \<le> (if (of_char c0 :: nat) = 0xF4 then 0x8F else 0xBF)
        \<and> contByte (of_char c2) \<and> contByte (of_char c3)"
    proof (rule ccontr)
      assume "\<not> ?thesis"
      then have "DecodeRuneInString (c0 # s) = (RuneError, 1)"
        using lead four s by (auto simp: DecodeRuneInString.simps Let_def split: if_splits)
      with dec ok show False by simp
    qed
    from utf8_four [OF four lead(2)] cont obtain r' where
      r': "\<forall>t. DecodeRuneInString (c0 # c1 # c2 # c3 # t) = (r', 4)"
        "AppendRune r' = [c0, c1, c2, c3]" "ValidRune r'" "0x80 \<le> r'"
      by blast
    with dec s have "r = r'" "w = 4" by simp_all
    with r' s show ?thesis by simp
  qed
qed

lemma length_hexByte [simp]: "length (hexByte n) = 2"
  by (simp add: hexByte_def)

lemma length_hexRune [simp]: "length (hexRune shifts r) = length shifts"
  by (simp add: hexRune_def)

lemmas char_eval = char_of_eq_iff take_bit_eq_mod

lemma unquote_plain:
  assumes "(of_char c :: nat) < 128" and "c \<noteq> CHR 0x22" and "c \<noteq> CHR 0x5C"
  shows "UnquoteChar (c # rest) (CHR 0x22) = Some (of_char c, False, rest)"
  using assms by (simp add: UnquoteChar_def RuneSelf_def)

lemma unquote_hex_byte:
  assumes "n < 256"
  shows "UnquoteChar (([CHR 0x5C, CHR ''x''] @ hexByte n) @ rest) (CHR 0x22) = Some (n, False, rest)"
  using assms
  by (simp add: UnquoteChar_def unquoteEscape_def RuneSelf_def unhexDigits_hexByte)

lemma unquote_hex_rune4:
  assumes "r < 0x10000" and "ValidRune r"
  shows "UnquoteChar (([CHR 0x5C, CHR ''u''] @ hexRune [12, 8, 4, 0] r) @ rest) (CHR 0x22)
         = Some (r, True, rest)"
  using assms
  by (simp add: UnquoteChar_def unquoteEscape_def RuneSelf_def unhexDigits_hexRune4)

lemma unquote_hex_rune8:
  assumes "ValidRune r"
  shows "UnquoteChar (([CHR 0x5C, CHR ''U''] @ hexRune [28, 24, 20, 16, 12, 8, 4, 0] r) @ rest)
           (CHR 0x22) = Some (r, True, rest)"
proof -
  have "r < 0x100000000"
    using assms by (auto simp: ValidRune_def MaxRune_def)
  then show ?thesis
    using assms
    by (simp add: UnquoteChar_def unquoteEscape_def RuneSelf_def unhexDigits_hexRune8)
qed

lemma unquote_letter:
  "UnquoteChar ([CHR 0x5C, CHR ''a''] @ rest) (CHR 0x22) = Some (7, False, rest)"
  "UnquoteChar ([CHR 0x5C, CHR ''b''] @ rest) (CHR 0x22) = Some (8, False, rest)"
  "UnquoteChar ([CHR 0x5C, CHR ''f''] @ rest) (CHR 0x22) = Some (12, False, rest)"
  "UnquoteChar ([CHR 0x5C, CHR ''n''] @ rest) (CHR 0x22) = Some (10, False, rest)"
  "UnquoteChar ([CHR 0x5C, CHR ''r''] @ rest) (CHR 0x22) = Some (13, False, rest)"
  "UnquoteChar ([CHR 0x5C, CHR ''t''] @ rest) (CHR 0x22) = Some (9, False, rest)"
  "UnquoteChar ([CHR 0x5C, CHR ''v''] @ rest) (CHR 0x22) = Some (11, False, rest)"
  "UnquoteChar ([CHR 0x5C, CHR 0x5C] @ rest) (CHR 0x22) = Some (92, False, rest)"
  "UnquoteChar ([CHR 0x5C, CHR 0x22] @ rest) (CHR 0x22) = Some (34, False, rest)"
  by (simp_all add: UnquoteChar_def unquoteEscape_def RuneSelf_def)

lemma unquote_multibyte:
  assumes "128 \<le> (of_char c :: nat)" and "DecodeRuneInString ((c # bs) @ rest) = (r, Suc (length bs))"
  shows "UnquoteChar ((c # bs) @ rest) (CHR 0x22) = Some (r, True, rest)"
proof -
  have "c \<noteq> CHR 0x22"
    using assms(1) by auto
  with assms show ?thesis
    by (simp add: UnquoteChar_def RuneSelf_def)
qed

lemma unquoteLoop_step:
  assumes "chunk \<noteq> []" and "hd chunk \<noteq> CHR 0x22" and "hd chunk \<noteq> CHR 0x0A"
    and "UnquoteChar (chunk @ rest) (CHR 0x22) = Some (v, multibyte, rest)"
  shows "unquoteLoop (chunk @ rest) buf =
     unquoteLoop rest (buf @ (if v < RuneSelf \<or> \<not> multibyte then [char_of v] else AppendRune v))"
  using assms by (subst unquoteLoop.simps) simp

lemma loop_letter:
  "unquoteLoop ([CHR 0x5C, CHR ''a''] @ rest) buf = unquoteLoop rest (buf @ [char_of (7 :: nat)])"
  "unquoteLoop ([CHR 0x5C, CHR ''b''] @ rest) buf = unquoteLoop rest (buf @ [char_of (8 :: nat)])"
  "unquoteLoop ([CHR 0x5C, CHR ''f''] @ rest) buf = unquoteLoop rest (buf @ [char_of (12 :: nat)])"
  "unquoteLoop ([CHR 0x5C, CHR ''n''] @ rest) buf = unquoteLoop rest (buf @ [char_of (10 :: nat)])"
  "unquoteLoop ([CHR 0x5C, CHR ''r''] @ rest) buf = unquoteLoop rest (buf @ [char_of (13 :: nat)])"
  "unquoteLoop ([CHR 0x5C, CHR ''t''] @ rest) buf = unquoteLoop rest (buf @ [char_of (9 :: nat)])"
  "unquoteLoop ([CHR 0x5C, CHR ''v''] @ rest) buf = unquoteLoop rest (buf @ [char_of (11 :: nat)])"
  "unquoteLoop ([CHR 0x5C, CHR 0x5C] @ rest) buf = unquoteLoop rest (buf @ [char_of (92 :: nat)])"
  "unquoteLoop ([CHR 0x5C, CHR 0x22] @ rest) buf = unquoteLoop rest (buf @ [char_of (34 :: nat)])"
proof -
  show "unquoteLoop ([CHR 0x5C, CHR ''a''] @ rest) buf = unquoteLoop rest (buf @ [char_of (7 :: nat)])"
    using unquoteLoop_step [OF _ _ _ unquote_letter(1), of rest buf] by (simp add: RuneSelf_def)
  show "unquoteLoop ([CHR 0x5C, CHR ''b''] @ rest) buf = unquoteLoop rest (buf @ [char_of (8 :: nat)])"
    using unquoteLoop_step [OF _ _ _ unquote_letter(2), of rest buf] by (simp add: RuneSelf_def)
  show "unquoteLoop ([CHR 0x5C, CHR ''f''] @ rest) buf = unquoteLoop rest (buf @ [char_of (12 :: nat)])"
    using unquoteLoop_step [OF _ _ _ unquote_letter(3), of rest buf] by (simp add: RuneSelf_def)
  show "unquoteLoop ([CHR 0x5C, CHR ''n''] @ rest) buf = unquoteLoop rest (buf @ [char_of (10 :: nat)])"
    using unquoteLoop_step [OF _ _ _ unquote_letter(4), of rest buf] by (simp add: RuneSelf_def)
  show "unquoteLoop ([CHR 0x5C, CHR ''r''] @ rest) buf = unquoteLoop rest (buf @ [char_of (13 :: nat)])"
    using unquoteLoop_step [OF _ _ _ unquote_letter(5), of rest buf] by (simp add: RuneSelf_def)
  show "unquoteLoop ([CHR 0x5C, CHR ''t''] @ rest) buf = unquoteLoop rest (buf @ [char_of (9 :: nat)])"
    using unquoteLoop_step [OF _ _ _ unquote_letter(6), of rest buf] by (simp add: RuneSelf_def)
  show "unquoteLoop ([CHR 0x5C, CHR ''v''] @ rest) buf = unquoteLoop rest (buf @ [char_of (11 :: nat)])"
    using unquoteLoop_step [OF _ _ _ unquote_letter(7), of rest buf] by (simp add: RuneSelf_def)
  show "unquoteLoop ([CHR 0x5C, CHR 0x5C] @ rest) buf = unquoteLoop rest (buf @ [char_of (92 :: nat)])"
    using unquoteLoop_step [OF _ _ _ unquote_letter(8), of rest buf] by (simp add: RuneSelf_def)
  show "unquoteLoop ([CHR 0x5C, CHR 0x22] @ rest) buf = unquoteLoop rest (buf @ [char_of (34 :: nat)])"
    using unquoteLoop_step [OF _ _ _ unquote_letter(9), of rest buf] by (simp add: RuneSelf_def)
qed

lemma loop_hex_byte:
  assumes "n < 256"
  shows "unquoteLoop (([CHR 0x5C, CHR ''x''] @ hexByte n) @ rest) buf
         = unquoteLoop rest (buf @ [char_of n])"
  using unquoteLoop_step [OF _ _ _ unquote_hex_byte [OF assms], of rest buf] by simp

lemma loop_plain:
  assumes "(of_char c :: nat) < 128" and "c \<noteq> CHR 0x22" and "c \<noteq> CHR 0x5C" and "c \<noteq> CHR 0x0A"
  shows "unquoteLoop ([c] @ rest) buf = unquoteLoop rest (buf @ [c])"
  using unquoteLoop_step [of "[c]" rest "of_char c" False buf] unquote_plain [OF assms(1-3), of rest]
    assms
  by (simp add: RuneSelf_def)

lemma loop_rune4:
  assumes "r < 0x10000" and "ValidRune r" and "128 \<le> r"
  shows "unquoteLoop (([CHR 0x5C, CHR ''u''] @ hexRune [12, 8, 4, 0] r) @ rest) buf
         = unquoteLoop rest (buf @ AppendRune r)"
  using unquoteLoop_step [OF _ _ _ unquote_hex_rune4 [OF assms(1,2)], of rest buf] assms(3)
  by (simp add: RuneSelf_def)

lemma loop_rune8:
  assumes "ValidRune r" and "128 \<le> r"
  shows "unquoteLoop (([CHR 0x5C, CHR ''U''] @ hexRune [28, 24, 20, 16, 12, 8, 4, 0] r) @ rest) buf
         = unquoteLoop rest (buf @ AppendRune r)"
  using unquoteLoop_step [OF _ _ _ unquote_hex_rune8 [OF assms(1)], of rest buf] assms(2)
  by (simp add: RuneSelf_def)

lemma loop_multibyte:
  assumes "128 \<le> (of_char c :: nat)"
    and "DecodeRuneInString ((c # bs) @ rest) = (r, Suc (length bs))" and "128 \<le> r"
  shows "unquoteLoop ((c # bs) @ rest) buf = unquoteLoop rest (buf @ AppendRune r)"
proof -
  have "c \<noteq> CHR 0x22" and "c \<noteq> CHR 0x0A"
    using assms(1) by auto
  then show ?thesis
    using unquoteLoop_step [of "c # bs" rest r True buf] unquote_multibyte [OF assms(1,2)] assms(3)
    by (simp add: RuneSelf_def)
qed

lemma char_of_literals:
  "char_of (7 :: nat) = CHR 0x07" "char_of (8 :: nat) = CHR 0x08" "char_of (9 :: nat) = CHR 0x09"
  "char_of (10 :: nat) = CHR 0x0A" "char_of (11 :: nat) = CHR 0x0B"
  "char_of (12 :: nat) = CHR 0x0C" "char_of (13 :: nat) = CHR 0x0D"
  "char_of (34 :: nat) = CHR 0x22" "char_of (92 :: nat) = CHR 0x5C"
  by (simp_all add: char_eval)

lemma chunk_ascii:
  assumes "(of_char c :: nat) < 128"
  shows "unquoteLoop (appendEscapedRune tbl (of_char c) @ rest) buf = unquoteLoop rest (buf @ [c])"
proof -
  define n where "n = (of_char c :: nat)"
  have c: "c = char_of n" and small: "n < 128"
    using assms by (simp_all add: n_def)
  show ?thesis
  proof (cases "n = 34 \<or> n = 92")
    case True
    then show ?thesis
      unfolding n_def [symmetric] c
      using loop_letter(8,9) [of rest buf]
      by (auto simp: appendEscapedRune_def char_of_literals)
  next
    case special: False
    show ?thesis
    proof (cases "32 \<le> n \<and> n \<le> 126")
      case True
      have "c \<noteq> CHR 0x22" "c \<noteq> CHR 0x5C" "c \<noteq> CHR 0x0A"
        using special True by (auto simp: n_def)
      with assms have "unquoteLoop ([c] @ rest) buf = unquoteLoop rest (buf @ [c])"
        by (rule loop_plain)
      moreover have "appendEscapedRune tbl n = [c]"
        using special True by (simp add: appendEscapedRune_def IsPrint_def AppendRune_def c)
      ultimately show ?thesis
        by (simp add: n_def)
    next
      case False
      then have ctl: "n < 32 \<or> n = 127"
        using small by linarith
      then have noprint: "\<not> IsPrint tbl n"
        by (auto simp: IsPrint_def)
      show ?thesis
      proof (cases "n \<in> {7, 8, 9, 10, 11, 12, 13}")
        case True
        then show ?thesis
          unfolding n_def [symmetric] c
          using loop_letter(1-7) [of rest buf] noprint special
          by (auto simp: appendEscapedRune_def char_of_literals)
      next
        case False
        then have "appendEscapedRune tbl n = [CHR 0x5C, CHR ''x''] @ hexByte n"
          using noprint special ctl by (auto simp: appendEscapedRune_def)
        moreover have "n < 256"
          using small by simp
        ultimately show ?thesis
          unfolding n_def [symmetric] c
          using loop_hex_byte [of n rest buf] by simp
      qed
    qed
  qed
qed

lemma chunk_roundtrip:
  assumes "s \<noteq> []" and hr: "headRune s = (r, w)"
  shows "unquoteLoop
           ((if w = 1 \<and> r = RuneError then [CHR 0x5C, CHR ''x''] @ hexByte (of_char (hd s))
             else appendEscapedRune tbl r) @ rest) buf
         = unquoteLoop rest (buf @ take w s)"
proof -
  obtain c s' where s: "s = c # s'"
    using assms(1) by (cases s) auto
  show ?thesis
  proof (cases "(of_char c :: nat) < 128")
    case True
    with hr have "r = of_char c" "w = 1"
      by (simp_all add: headRune_def RuneSelf_def s)
    moreover from True have "(of_char c :: nat) \<noteq> RuneError"
      by (simp add: RuneError_def)
    ultimately show ?thesis
      using chunk_ascii [OF True, of tbl rest buf] by (simp add: s)
  next
    case False
    then have high: "0x80 \<le> (of_char c :: nat)"
      by simp
    with hr have dec: "DecodeRuneInString (c # s') = (r, w)"
      by (simp add: headRune_def RuneSelf_def s)
    show ?thesis
    proof (cases "w = 1 \<and> r = RuneError")
      case True
      have "(of_char c :: nat) < 256"
        by simp
      from loop_hex_byte [OF this, of rest buf] True show ?thesis
        by (simp add: s)
    next
      case valid: False
      from decode_multibyte [OF high dec valid] have
        w: "w \<le> length (c # s')" and enc: "AppendRune r = take w (c # s')"
        and vr: "ValidRune r" and r128: "0x80 \<le> r"
        and again: "DecodeRuneInString (take w (c # s') @ rest) = (r, w)"
        by blast+
      have wpos: "0 < w"
        using DecodeRuneInString_width [of "c # s'"] dec by simp
      define bs where "bs = take (w - 1) s'"
      have bs: "take w (c # s') = c # bs"
        using wpos by (cases w) (simp_all add: bs_def)
      have len: "w = Suc (length bs)"
        using w wpos by (simp add: bs_def)
      have again': "DecodeRuneInString ((c # bs) @ rest) = (r, Suc (length bs))"
        using again unfolding bs by (simp only: len [symmetric])
      have enc': "AppendRune r = c # bs"
        using enc by (simp only: bs)
      have taken: "take w s = c # bs"
        by (simp only: s bs)
      have plain: "unquoteLoop (AppendRune r @ rest) buf = unquoteLoop rest (buf @ take w s)"
        using loop_multibyte [OF high again' r128, of buf]
        by (simp only: enc' taken)
      have enc_s: "AppendRune r = take w s"
        by (simp only: enc' taken)
      have sel: "(if w = 1 \<and> r = RuneError
                  then [CHR 0x5C, CHR ''x''] @ hexByte (of_char (hd s))
                  else appendEscapedRune tbl r) = appendEscapedRune tbl r"
        by (rule if_not_P [OF valid])
      have aer: "appendEscapedRune tbl r =
          (if IsPrint tbl r then AppendRune r
           else if r < 0x10000 then [CHR 0x5C, CHR ''u''] @ hexRune [12, 8, 4, 0] r
           else [CHR 0x5C, CHR ''U''] @ hexRune [28, 24, 20, 16, 12, 8, 4, 0] r)"
        using r128 vr by (simp add: appendEscapedRune_def)
      show ?thesis
      proof (cases "IsPrint tbl r")
        case True
        then have "appendEscapedRune tbl r = AppendRune r"
          by (simp only: aer if_True)
        then show ?thesis
          unfolding sel by (simp only: plain)
      next
        case noprint: False
        show ?thesis
        proof (cases "r < 0x10000")
          case True
          with noprint have "appendEscapedRune tbl r
              = [CHR 0x5C, CHR ''u''] @ hexRune [12, 8, 4, 0] r"
            by (simp only: aer if_True if_False)
          then show ?thesis
            unfolding sel using loop_rune4 [OF True vr r128, of rest buf]
            by (simp only: enc_s)
        next
          case False
          with noprint have "appendEscapedRune tbl r
              = [CHR 0x5C, CHR ''U''] @ hexRune [28, 24, 20, 16, 12, 8, 4, 0] r"
            by (simp only: aer if_False)
          then show ?thesis
            unfolding sel using loop_rune8 [OF vr r128, of rest buf]
            by (simp only: enc_s)
        qed
      qed
    qed
  qed
qed

lemma unquoteLoop_quoteLoop:
  "unquoteLoop (quoteLoop tbl s @ CHR 0x22 # rest) buf = Some (buf @ s, CHR 0x22 # rest)"
proof (induction tbl s arbitrary: buf rule: quoteLoop.induct)
  case (1 tbl s)
  show ?case
  proof (cases "s = []")
    case True
    then show ?thesis
      by (simp add: quoteLoop.simps [of tbl "[]"] unquoteLoop.simps [of "CHR 0x22 # rest"])
  next
    case False
    obtain r w where hr: "headRune s = (r, w)"
      by (cases "headRune s")
    have IH: "unquoteLoop (quoteLoop tbl (drop w s) @ CHR 0x22 # rest) b
        = Some (b @ drop w s, CHR 0x22 # rest)" for b
      using "1.IH" [OF False hr [symmetric] refl] .
    have "quoteLoop tbl s =
        (if w = 1 \<and> r = RuneError then [CHR 0x5C, CHR ''x''] @ hexByte (of_char (hd s))
         else appendEscapedRune tbl r) @ quoteLoop tbl (drop w s)"
      using False hr by (subst quoteLoop.simps) simp
    then have "unquoteLoop (quoteLoop tbl s @ CHR 0x22 # rest) buf
        = unquoteLoop (quoteLoop tbl (drop w s) @ CHR 0x22 # rest) (buf @ take w s)"
      using chunk_roundtrip [OF False hr, of tbl "quoteLoop tbl (drop w s) @ CHR 0x22 # rest" buf]
      by simp
    then show ?thesis
      by (simp add: IH)
  qed
qed

lemma Unquote_Quote: "Unquote (Quote tbl s) = Some s"
  using unquoteLoop_quoteLoop [of tbl s "[]" "[]"]
  by (simp add: Unquote_def Quote_def)

subsection \<open>Decimal digits\<close>

lemma digitChar_mem: "k < 10 \<Longrightarrow> digitChar k \<in> set ''0123456789''"
  unfolding digitChar_def by (rule nth_mem) simp

lemma digitChar_value: "k < 10 \<Longrightarrow> of_char (digitChar k) - 48 = k"
proof -
  assume "k < 10"
  then have "k \<in> {0, 1, 2, 3, 4, 5, 6, 7, 8, 9}" by auto
  then show ?thesis by (auto simp: digitChar_def)
qed

lemma natDigits_digits: "set (natDigits n) \<subseteq> set ''0123456789''"
proof (induction n rule: natDigits.induct)
  case (1 n)
  show ?case
  proof (cases "n < 10")
    case True
    then show ?thesis
      using digitChar_mem [of n] by (subst natDigits.simps) simp
  next
    case False
    then have "set (natDigits (n div 10)) \<subseteq> set ''0123456789''"
      using 1 by simp
    moreover have "digitChar (n mod 10) \<in> set ''0123456789''"
      by (rule digitChar_mem) simp
    ultimately show ?thesis
      using False by (subst natDigits.simps) simp
  qed
qed

lemma decimalNat_snoc: "decimalNat (s @ [c]) = 10 * decimalNat s + (of_char c - 48)"
  by (simp add: decimalNat_def)

lemma decimalNat_natDigits: "decimalNat (natDigits n) = n"
proof (induction n rule: natDigits.induct)
  case (1 n)
  show ?case
  proof (cases "n < 10")
    case True
    then show ?thesis
      by (subst natDigits.simps) (simp add: decimalNat_def digitChar_value)
  next
    case False
    with 1 show ?thesis
      by (subst natDigits.simps) (simp add: decimalNat_snoc digitChar_value)
  qed
qed

lemma natDigits_22: "natDigits 22 = ''22''"
  by (simp add: natDigits.simps digitChar_def)

lemma InterfaceToString_length: "length (fst (InterfaceToString arr)) = length arr"
  by (induction arr) (simp_all add: split_def Let_def)

lemma InterfaceToString_Nil: "fst (InterfaceToString arr) = [] \<longleftrightarrow> arr = []"
  using InterfaceToString_length [of arr] by (metis length_0_conv)


section \<open>Properties of the normaliser\<close>

lemma ExpandInventoryHosts_append:
  "ExpandInventoryHosts (xs @ ys) =
     (fst (ExpandInventoryHosts xs) @ fst (ExpandInventoryHosts ys),
      snd (ExpandInventoryHosts xs) @ snd (ExpandInventoryHosts ys))"
  by (induction xs) (simp_all add: split_def Let_def)

lemma ExpandInventoryGroups_append:
  "ExpandInventoryGroups (xs @ ys) =
     (fst (ExpandInventoryGroups xs) @ fst (ExpandInventoryGroups ys),
      snd (ExpandInventoryGroups xs) @ snd (ExpandInventoryGroups ys))"
  by (induction xs) (simp_all add: split_def Let_def)

lemma map_of_delete_other: "k' \<noteq> k \<Longrightarrow> map_of (AList.delete k m) k' = map_of m k'"
  by (simp add: AList.delete_conv')

lemma asSlice_mistyped: "\<forall>xs. v \<noteq> Some (IList xs) \<Longrightarrow> asSlice v = ([], False)"
  by (auto simp: asSlice_def split: option.splits iface.splits)

lemma asMap_mistyped: "\<forall>vm. v \<noteq> Some (IMap vm) \<Longrightarrow> asMap v = ([], False)"
  by (auto simp: asMap_def split: option.splits iface.splits)

lemma asSlice_absent: "asSlice None = ([], False)"
  by (simp add: asSlice_def)

lemma asMap_absent: "asMap None = ([], False)"
  by (simp add: asMap_def)

lemma expandHostEntry_groups_mistyped:
  assumes "\<forall>xs. map_of m ''groups'' \<noteq> Some (IList xs)"
  shows "expandHostEntry (IMap m) = expandHostEntry (IMap (AList.delete ''groups'' m))"
  using assms
  by (simp add: expandHostEntry_def asSlice_mistyped asSlice_absent map_of_delete_other
      AList.delete_conv' Let_def split_def)

lemma expandHostEntry_variables_mistyped:
  assumes "\<forall>vm. map_of m ''variables'' \<noteq> Some (IMap vm)"
  shows "expandHostEntry (IMap m) = expandHostEntry (IMap (AList.delete ''variables'' m))"
  using assms
  by (simp add: expandHostEntry_def asMap_mistyped asMap_absent map_of_delete_other
      AList.delete_conv' Let_def split_def)

lemma expandGroupEntry_children_mistyped:
  assumes "\<forall>xs. map_of m ''children'' \<noteq> Some (IList xs)"
  shows "expandGroupEntry (IMap m) = expandGroupEntry (IMap (AList.delete ''children'' m))"
  using assms
  by (simp add: expandGroupEntry_def asSlice_mistyped asSlice_absent map_of_delete_other
      AList.delete_conv' Let_def split_def)

lemma expandGroupEntry_variables_mistyped:
  assumes "\<forall>vm. map_of m ''variables'' \<noteq> Some (IMap vm)"
  shows "expandGroupEntry (IMap m) = expandGroupEntry (IMap (AList.delete ''variables'' m))"
  using assms
  by (simp add: expandGroupEntry_def asMap_mistyped asMap_absent map_of_delete_other
      AList.delete_conv' Let_def split_def)

lemma ExpandInventoryHosts_entry:
  "expandHostEntry e = expandHostEntry e' \<Longrightarrow>
   ExpandInventoryHosts (pre @ e # post) = ExpandInventoryHosts (pre @ e' # post)"
  by (simp add: ExpandInventoryHosts_append)

lemma ExpandInventoryGroups_entry:
  "expandGroupEntry e = expandGroupEntry e' \<Longrightarrow>
   ExpandInventoryGroups (pre @ e # post) = ExpandInventoryGroups (pre @ e' # post)"
  by (simp add: ExpandInventoryGroups_append)

section \<open>Properties of the two collecting loops\<close>

lemma addHostLine_frame [simp]:
  "groupVars (addHostLine l g st) = groupVars st"
  "groupChildren (addHostLine l g st) = groupChildren st"
  "diags (addHostLine l g st) = diags st"
  by (simp_all add: addHostLine_def)

lemma fold_addHostLine_frame [simp]:
  "groupVars (fold (addHostLine l) gs st) = groupVars st"
  "groupChildren (fold (addHostLine l) gs st) = groupChildren st"
  "diags (fold (addHostLine l) gs st) = diags st"
  by (induction gs arbitrary: st) simp_all

lemma addHost_frame [simp]:
  "groupVars (addHost tbl h st) = groupVars st"
  "groupChildren (addHost tbl h st) = groupChildren st"
  by (simp_all add: addHost_def)

lemma fold_addHost_frame [simp]:
  "groupVars (fold (addHost tbl) hs st) = groupVars st"
  "groupChildren (fold (addHost tbl) hs st) = groupChildren st"
  by (induction hs arbitrary: st) simp_all

lemma groupNames_fold_addHostLine:
  "groupNames (fold (addHostLine l) gs st) = groupNames st \<union> (set gs - {[]})"
  by (induction gs arbitrary: st) (auto simp: addHostLine_def)

lemma hostsOf_addHostLine:
  "hostsOf (addHostLine l g' st) g = hostsOf st g @ (if g' = g \<and> g' \<noteq> [] then [l] else [])"
  by (simp add: addHostLine_def hostsOf_def)

lemma hostsOf_fold_addHostLine:
  "hostsOf (fold (addHostLine l) gs st) g =
     hostsOf st g @ map (\<lambda>_. l) (filter (\<lambda>g'. g' = g \<and> g' \<noteq> []) gs)"
  by (induction gs arbitrary: st) (auto simp: hostsOf_addHostLine)

lemma groupNames_addHost:
  "groupNames (addHost tbl h st) = groupNames st \<union> hostGroupNames h"
  by (simp add: addHost_def hostGroupNames_def groupNames_fold_addHostLine)

lemma hostsOf_diags_update [simp]: "hostsOf (st\<lparr>diags := d\<rparr>) g = hostsOf st g"
  by (simp add: hostsOf_def)

lemma hostsOf_addHost:
  "hostsOf (addHost tbl h st) g = hostsOf st g @ hostContribution tbl h g"
  by (simp add: addHost_def hostContribution_def hostsOf_fold_addHostLine)

lemma groupNames_fold_addHost:
  "groupNames (fold (addHost tbl) hs st) = groupNames st \<union> (\<Union>h\<in>set hs. hostGroupNames h)"
  by (induction hs arbitrary: st) (auto simp: groupNames_addHost)

lemma hostsOf_fold_addHost:
  "hostsOf (fold (addHost tbl) hs st) g =
     hostsOf st g @ concat (map (\<lambda>h. hostContribution tbl h g) hs)"
  by (induction hs arbitrary: st) (simp_all add: hostsOf_addHost)

lemma addGroup_hosts [simp]: "groupHosts (addGroup grp st) = groupHosts st"
  by (simp add: addGroup_def Let_def)

lemma fold_addGroup_hosts [simp]: "groupHosts (fold addGroup gs st) = groupHosts st"
  by (induction gs arbitrary: st) simp_all

lemma groupNames_addGroup:
  "groupNames (addGroup grp st) = groupNames st \<union> ({GroupName grp} - {[]})"
  by (auto simp: addGroup_def Let_def)

lemma groupNames_fold_addGroup:
  "groupNames (fold addGroup gs st) = groupNames st \<union> (GroupName ` set gs - {[]})"
  by (induction gs arbitrary: st) (auto simp: groupNames_addGroup)

lemma groupVars_fold_addGroup_None:
  "\<forall>grp\<in>set gs. GroupName grp \<noteq> g \<Longrightarrow> groupVars (fold addGroup gs st) g = groupVars st g"
  by (induction gs arbitrary: st) (auto simp: addGroup_def Let_def)

lemma groupChildren_fold_addGroup_None:
  "\<forall>grp\<in>set gs. GroupName grp \<noteq> g \<Longrightarrow> groupChildren (fold addGroup gs st) g = groupChildren st g"
  by (induction gs arbitrary: st) (auto simp: addGroup_def Let_def)

lemma groupNames_collect:
  "groupNames (collect tbl hosts groups) =
     (GroupName ` set groups - {[]}) \<union> (\<Union>h\<in>set hosts. hostGroupNames h)"
  by (simp add: collect_def groupNames_fold_addHost groupNames_fold_addGroup emptyAcc_def)

lemma finite_groupNames_collect: "finite (groupNames (collect tbl hosts groups))"
  by (simp add: groupNames_collect hostGroupNames_def)

lemma hostsOf_collect:
  "hostsOf (collect tbl hosts groups) g = concat (map (\<lambda>h. hostContribution tbl h g) hosts)"
  by (simp add: collect_def hostsOf_fold_addHost) (simp add: hostsOf_def emptyAcc_def)

lemma addHost_silent:
  assumes "Name h \<noteq> []" and "Groups h \<noteq> []" and "\<forall>g\<in>set (Groups h). g = []"
  shows "addHost tbl h st = st"
proof -
  have "fold (addHostLine l) gs st = st" if "\<forall>g\<in>set gs. g = []" for l gs
    using that by (induction gs) (simp_all add: addHostLine_def)
  with assms show ?thesis
    by (simp add: addHost_def effectiveGroups_def)
qed




lemma mapLen_pos: "0 < mapLen m \<longleftrightarrow> m \<noteq> []"
  by (simp add: mapLen_def mapKeys_def)

lemma sort_Nil_iff: "sort xs = [] \<longleftrightarrow> xs = []"
  by (metis length_0_conv length_sort)

lemma sortedKeys_Nil: "sortedKeys m = [] \<longleftrightarrow> m = []"
  by (simp add: sortedKeys_def mapKeys_def sort_Nil_iff)

lemma sorted_sortedKeys: "sorted (sortedKeys m) \<and> distinct (sortedKeys m)"
  by (simp add: sortedKeys_def mapKeys_def)

lemma set_sortedKeys: "set (sortedKeys m) = fst ` set m"
  by (simp add: sortedKeys_def mapKeys_def)

lemma renderGroup_section: "renderGroup tbl st g = renderSection (sectionOf tbl st g)"
  by (simp add: renderGroup_def renderSection_def sectionOf_def varsOf_def childrenOf_def
      formatInventoryVariables_def mapLen_pos sortedKeys_Nil sort_Nil_iff comp_def
      split: option.splits)

lemma build_sections:
  "fst (buildInventoryFileContent tbl hosts groups) =
     concat (map (\<lambda>g. renderSection (sectionOf tbl (collect tbl hosts groups) g))
                 (sortedGroupNames (collect tbl hosts groups)))"
proof -
  have "renderGroup tbl st = (\<lambda>g. renderSection (sectionOf tbl st g))" for st
    by (rule ext) (rule renderGroup_section)
  then show ?thesis
    by (simp add: buildInventoryFileContent_def Let_def)
qed

lemma sortedGroupNames_props:
  "sorted (sortedGroupNames (collect tbl hosts groups))"
  "distinct (sortedGroupNames (collect tbl hosts groups))"
  "set (sortedGroupNames (collect tbl hosts groups)) = groupNames (collect tbl hosts groups)"
  by (simp_all add: sortedGroupNames_def finite_groupNames_collect)

lemma varsOf_addGroup:
  "varsOf (addGroup grp st) g =
     (if GroupName grp = g \<and> g \<noteq> [] \<and> GroupVariables grp \<noteq> [] then GroupVariables grp
      else varsOf st g)"
  by (auto simp: addGroup_def Let_def varsOf_def mapLen_pos)

lemma childrenOf_addGroup:
  "childrenOf (addGroup grp st) g =
     (if GroupName grp = g \<and> g \<noteq> [] \<and> Children grp \<noteq> [] then Children grp
      else childrenOf st g)"
  by (auto simp: addGroup_def Let_def childrenOf_def)

lemma varsOf_fold_addGroup:
  "varsOf (fold addGroup gs st) g \<noteq> [] \<longleftrightarrow>
     varsOf st g \<noteq> [] \<or> (g \<noteq> [] \<and> (\<exists>grp\<in>set gs. GroupName grp = g \<and> GroupVariables grp \<noteq> []))"
  by (induction gs arbitrary: st) (auto simp: varsOf_addGroup)

lemma childrenOf_fold_addGroup:
  "childrenOf (fold addGroup gs st) g \<noteq> [] \<longleftrightarrow>
     childrenOf st g \<noteq> [] \<or> (g \<noteq> [] \<and> (\<exists>grp\<in>set gs. GroupName grp = g \<and> Children grp \<noteq> []))"
  by (induction gs arbitrary: st) (auto simp: childrenOf_addGroup)

lemma varsOf_collect:
  "varsOf (collect tbl hosts groups) g \<noteq> [] \<longleftrightarrow>
     g \<noteq> [] \<and> (\<exists>grp\<in>set groups. GroupName grp = g \<and> GroupVariables grp \<noteq> [])"
  by (simp add: collect_def varsOf_def [of "fold (addHost tbl) hosts st" for st]
      varsOf_fold_addGroup [unfolded varsOf_def] emptyAcc_def)

lemma childrenOf_collect:
  "childrenOf (collect tbl hosts groups) g \<noteq> [] \<longleftrightarrow>
     g \<noteq> [] \<and> (\<exists>grp\<in>set groups. GroupName grp = g \<and> Children grp \<noteq> [])"
  by (simp add: collect_def childrenOf_def [of "fold (addHost tbl) hosts st" for st]
      childrenOf_fold_addGroup [unfolded childrenOf_def] emptyAcc_def)


lemma quoteLoop_Nil: "quoteLoop tbl [] = []"
  by (simp add: quoteLoop.simps)

lemma quoteLoop_plain:
  assumes "0x20 \<le> (of_char c :: nat)" and "(of_char c :: nat) \<le> 0x7E"
    and "(of_char c :: nat) \<noteq> 0x22" and "(of_char c :: nat) \<noteq> 0x5C"
  shows "quoteLoop tbl (c # s) = c # quoteLoop tbl s"
proof -
  have "headRune (c # s) = (of_char c, 1)"
    using assms by (simp add: headRune_def RuneSelf_def)
  moreover have "appendEscapedRune tbl (of_char c) = [c]"
    using assms by (simp add: appendEscapedRune_def IsPrint_def AppendRune_def)
  moreover have "(of_char c :: nat) \<noteq> RuneError"
    using assms by (simp add: RuneError_def)
  ultimately show ?thesis
    by (subst quoteLoop.simps) simp
qed

lemmas string_order = less_eq_char_def less_char_def

lemmas builder_defs =
  buildInventoryFileContent_def collect_def addHost_def addGroup_def addHostLine_def
  emptyAcc_def hostsOf_def mapLen_def mapKeys_def sortedGroupNames_def renderGroup_def
  formatInventoryHostLine_def formatInventoryVariables_def sortedKeys_def mapGet_def
  DefaultHostGroup_def effectiveGroups_def Quote_def quoteLoop_Nil quoteLoop_plain

lemma sorted_sections:
  "sorted (secHosts (sectionOf tbl st g)) \<and> sorted (map fst (secVars (sectionOf tbl st g)))
   \<and> distinct (map fst (secVars (sectionOf tbl st g))) \<and> sorted (secChildren (sectionOf tbl st g))"
  by (simp add: sectionOf_def comp_def sorted_sortedKeys)

lemma secVars_Nil: "secVars (sectionOf tbl st g) = [] \<longleftrightarrow> varsOf st g = []"
  by (simp add: sectionOf_def sortedKeys_Nil)

lemma secChildren_Nil: "secChildren (sectionOf tbl st g) = [] \<longleftrightarrow> childrenOf st g = []"
  by (simp add: sectionOf_def sort_Nil_iff)

lemma sort_insert_middle: "sort (xs @ x # ys) = insort x (sort (xs @ ys))"
  by (rule properties_for_sort) (simp_all add: sorted_insort)

lemma count_list_distinct: "distinct xs \<Longrightarrow> x \<in> set xs \<Longrightarrow> count_list xs x = 1"
  by (induction xs) auto


subsection \<open>Further facts about the accumulators, the variable maps and the entries\<close>

lemma varsOf_collect_frame:
  "varsOf (collect tbl hosts groups) g = varsOf (collect tbl hosts' groups) g"
  "childrenOf (collect tbl hosts groups) g = childrenOf (collect tbl hosts' groups) g"
  by (simp_all add: collect_def varsOf_def childrenOf_def)

lemma mapGet_key: "key \<in> set (sortedKeys vars) \<Longrightarrow> mapGet vars key = the (map_of vars key)"
  by (auto simp: set_sortedKeys mapGet_def split: option.splits dest: weak_map_of_SomeI)

lemma key_of_binding: "map_of vars key = Some v \<Longrightarrow> key \<in> set (sortedKeys vars)"
  by (auto simp: set_sortedKeys dest: map_of_SomeD intro: rev_image_eqI)

lemma quoteLoop_quote: "quoteLoop tbl (CHR 0x22 # s) = [CHR 0x5C, CHR 0x22] @ quoteLoop tbl s"
  by (subst quoteLoop.simps)
    (simp add: headRune_def RuneSelf_def RuneError_def appendEscapedRune_def
      char_of_eq_iff take_bit_eq_mod)

lemma quoteLoop_backslash: "quoteLoop tbl (CHR 0x5C # s) = [CHR 0x5C, CHR 0x5C] @ quoteLoop tbl s"
  by (subst quoteLoop.simps)
    (simp add: headRune_def RuneSelf_def RuneError_def appendEscapedRune_def
      char_of_eq_iff take_bit_eq_mod)

lemma expandHostEntry_groups_only:
  assumes "map_of m ''name'' = Some (IString name)" and "name \<noteq> []"
    and "\<forall>xs. map_of m ''groups'' \<noteq> Some (IList xs)"
  shows "expandHostEntry (IMap m) =
     ([\<lparr>Name = name, Groups = [],
        Variables = fst (case map_of m ''variables'' of
                           Some (IMap vm) \<Rightarrow> mapInterfaceToStringMap vm [] | _ \<Rightarrow> ([], []))\<rparr>],
      snd (case map_of m ''variables'' of
             Some (IMap vm) \<Rightarrow> mapInterfaceToStringMap vm [] | _ \<Rightarrow> ([], [])))"
  using assms
  by (simp add: expandHostEntry_def asString_def asSlice_mistyped asMap_def Let_def split_def
      split: option.splits iface.splits)

lemma expandHostEntry_variables_only:
  assumes "map_of m ''name'' = Some (IString name)" and "name \<noteq> []"
    and "\<forall>vm. map_of m ''variables'' \<noteq> Some (IMap vm)"
  shows "expandHostEntry (IMap m) =
     ([\<lparr>Name = name,
        Groups = fst (case map_of m ''groups'' of
                        Some (IList xs) \<Rightarrow> InterfaceToString xs | _ \<Rightarrow> ([], [])),
        Variables = []\<rparr>],
      snd (case map_of m ''groups'' of
             Some (IList xs) \<Rightarrow> InterfaceToString xs | _ \<Rightarrow> ([], [])))"
  using assms
  by (simp add: expandHostEntry_def asString_def asMap_mistyped asSlice_def Let_def split_def
      split: option.splits iface.splits)

lemma expandGroupEntry_children_only:
  assumes "map_of m ''name'' = Some (IString name)" and "name \<noteq> []"
    and "\<forall>xs. map_of m ''children'' \<noteq> Some (IList xs)"
  shows "expandGroupEntry (IMap m) =
     ([\<lparr>GroupName = name, Children = [],
        GroupVariables = fst (case map_of m ''variables'' of
                           Some (IMap vm) \<Rightarrow> mapInterfaceToStringMap vm [] | _ \<Rightarrow> ([], []))\<rparr>],
      snd (case map_of m ''variables'' of
             Some (IMap vm) \<Rightarrow> mapInterfaceToStringMap vm [] | _ \<Rightarrow> ([], [])))"
  using assms
  by (simp add: expandGroupEntry_def asString_def asSlice_mistyped asMap_def Let_def split_def
      split: option.splits iface.splits)

lemma expandGroupEntry_variables_only:
  assumes "map_of m ''name'' = Some (IString name)" and "name \<noteq> []"
    and "\<forall>vm. map_of m ''variables'' \<noteq> Some (IMap vm)"
  shows "expandGroupEntry (IMap m) =
     ([\<lparr>GroupName = name,
        Children = fst (case map_of m ''children'' of
                        Some (IList xs) \<Rightarrow> InterfaceToString xs | _ \<Rightarrow> ([], [])),
        GroupVariables = []\<rparr>],
      snd (case map_of m ''children'' of
             Some (IList xs) \<Rightarrow> InterfaceToString xs | _ \<Rightarrow> ([], [])))"
  using assms
  by (simp add: expandGroupEntry_def asString_def asMap_mistyped asSlice_def Let_def split_def
      split: option.splits iface.splits)


section \<open>The claims\<close>

text \<open>
  Claim C1 says that when the creation of the temporary file fails inside
  \<^verbatim>\<open>BuildPlaybookInventory\<close>, the function appends a diagnostic, still returns a file
  path and does not panic. The code appends the diagnostic and goes on to call
  \<^verbatim>\<open>fileInfo.Name()\<close> on the nil file: whenever \<^verbatim>\<open>CreateTemp\<close> fails, the call panics
  with a nil dereference and returns neither a path nor the diagnostics. The pattern
  \<^verbatim>\<open>inv/x\<close>, which holds a path separator, is such an input.
\<close>

theorem C1_create_failure_panics:
  "CreateTemp env inventoryDest = Inl err \<Longrightarrow>
   BuildPlaybookInventory tbl env inventoryDest hostname port hostgroups inventoryHosts
     inventoryGroups = Panics nilDereference"
  by (simp add: BuildPlaybookInventory_def fileName_def)

theorem C1_create_failure_panics_witness:
  "CreateTemp rejectingEnv ''inv/x'' = Inl ''pattern contains path separator''
   \<and> BuildPlaybookInventory asciiTable rejectingEnv ''inv/x'' ''10.0.0.5'' 22 [] [] []
       = Panics nilDereference"
proof -
  have failed: "CreateTemp rejectingEnv ''inv/x'' = Inl ''pattern contains path separator''"
    by (simp add: rejectingEnv_def)
  from C1_create_failure_panics [OF failed] failed show ?thesis
    by simp
qed

text \<open>
  Claim C2: for the one group \<^verbatim>\<open>web\<close> with the variable \<^verbatim>\<open>ansible_user = deploy\<close> and
  the one host \<^verbatim>\<open>node1\<close> in \<^verbatim>\<open>web\<close>, the builder returns the heading, the host line, a
  blank line, the \<^verbatim>\<open>:vars\<close> heading, the quoted variable line and a blank line, and no
  diagnostics. This holds for every table of printable runes.
\<close>

theorem C2_scenario:
  "buildInventoryFileContent tbl
     [\<lparr>Name = ''node1'', Groups = [''web''], Variables = []\<rparr>]
     [\<lparr>GroupName = ''web'', Children = [], GroupVariables = [(''ansible_user'', ''deploy'')]\<rparr>]
   = (''[web]'' @ [CHR 0x0A] @ ''node1'' @ [CHR 0x0A] @ [CHR 0x0A]
      @ ''[web:vars]'' @ [CHR 0x0A] @ ''ansible_user='' @ [CHR 0x22] @ ''deploy'' @ [CHR 0x22]
      @ [CHR 0x0A] @ [CHR 0x0A], [])"
  by (simp add: builder_defs)

text \<open>
  Claim C3: the text the builder returns is the sequence of the sections of the
  specification's format, one per group name, in strictly ascending order of the group
  names; in every section the host lines are sorted, the keys of the \<^verbatim>\<open>:vars\<close> block are
  sorted and distinct, and the children are sorted; every block ends with a blank line
  (that is \<^const>\<open>renderSection\<close>); a section has a \<^verbatim>\<open>:vars\<close> block exactly when some
  group record of that name has a variable, and a \<^verbatim>\<open>:children\<close> block exactly when some
  group record of that name has a child. Hosts \<^verbatim>\<open>b\<close> and \<^verbatim>\<open>a\<close> in group \<^verbatim>\<open>g\<close> are listed
  with \<^verbatim>\<open>a\<close> first.
\<close>

theorem C3_sorted_sections:
  "fst (buildInventoryFileContent tbl hosts groups) =
     concat (map (\<lambda>g. renderSection (sectionOf tbl (collect tbl hosts groups) g))
                 (sortedGroupNames (collect tbl hosts groups)))
   \<and> sorted (sortedGroupNames (collect tbl hosts groups))
   \<and> distinct (sortedGroupNames (collect tbl hosts groups))
   \<and> (\<forall>g. sorted (secHosts (sectionOf tbl (collect tbl hosts groups) g))
          \<and> sorted (map fst (secVars (sectionOf tbl (collect tbl hosts groups) g)))
          \<and> distinct (map fst (secVars (sectionOf tbl (collect tbl hosts groups) g)))
          \<and> sorted (secChildren (sectionOf tbl (collect tbl hosts groups) g)))
   \<and> (\<forall>g\<in>set (sortedGroupNames (collect tbl hosts groups)).
         (secVars (sectionOf tbl (collect tbl hosts groups) g) \<noteq> [] \<longleftrightarrow>
            (\<exists>grp\<in>set groups. GroupName grp = g \<and> GroupVariables grp \<noteq> []))
       \<and> (secChildren (sectionOf tbl (collect tbl hosts groups) g) \<noteq> [] \<longleftrightarrow>
            (\<exists>grp\<in>set groups. GroupName grp = g \<and> Children grp \<noteq> [])))
   \<and> fst (buildInventoryFileContent tbl
          [\<lparr>Name = ''b'', Groups = [''g''], Variables = []\<rparr>,
           \<lparr>Name = ''a'', Groups = [''g''], Variables = []\<rparr>] [])
       = ''[g]'' @ [CHR 0x0A] @ ''a'' @ [CHR 0x0A] @ ''b'' @ [CHR 0x0A, CHR 0x0A]"
proof -
  have nonempty: "g \<noteq> []" if "g \<in> set (sortedGroupNames (collect tbl hosts groups))" for g
    using that by (auto simp: sortedGroupNames_props groupNames_collect hostGroupNames_def
        split: if_splits)
  have example: "fst (buildInventoryFileContent tbl
          [\<lparr>Name = ''b'', Groups = [''g''], Variables = []\<rparr>,
           \<lparr>Name = ''a'', Groups = [''g''], Variables = []\<rparr>] [])
       = ''[g]'' @ [CHR 0x0A] @ ''a'' @ [CHR 0x0A] @ ''b'' @ [CHR 0x0A, CHR 0x0A]"
    by (simp add: builder_defs string_order)
  show ?thesis
    using nonempty example
    by (simp only: build_sections sortedGroupNames_props sorted_sections secVars_Nil
        secChildren_Nil varsOf_collect childrenOf_collect) simp
qed

theorem C3_sorted_sections_witness:
  "sortedGroupNames (collect asciiTable
      [\<lparr>Name = ''node1'', Groups = [''web'', ''db''], Variables = []\<rparr>]
      [\<lparr>GroupName = ''web'', Children = [''db''], GroupVariables = [(''k'', ''v'')]\<rparr>])
     = [''db'', ''web'']
   \<and> secVars (sectionOf asciiTable (collect asciiTable
      [\<lparr>Name = ''node1'', Groups = [''web'', ''db''], Variables = []\<rparr>]
      [\<lparr>GroupName = ''web'', Children = [''db''], GroupVariables = [(''k'', ''v'')]\<rparr>]) ''web'') \<noteq> []
   \<and> secVars (sectionOf asciiTable (collect asciiTable
      [\<lparr>Name = ''node1'', Groups = [''web'', ''db''], Variables = []\<rparr>]
      [\<lparr>GroupName = ''web'', Children = [''db''], GroupVariables = [(''k'', ''v'')]\<rparr>]) ''db'') = []"
proof -
  have names: "sortedGroupNames (collect asciiTable
      [\<lparr>Name = ''node1'', Groups = [''web'', ''db''], Variables = []\<rparr>]
      [\<lparr>GroupName = ''web'', Children = [''db''], GroupVariables = [(''k'', ''v'')]\<rparr>])
     = [''db'', ''web'']"
    by (simp add: builder_defs string_order)
  show ?thesis
    using C3_sorted_sections [of asciiTable
      "[\<lparr>Name = ''node1'', Groups = [''web'', ''db''], Variables = []\<rparr>]"
      "[\<lparr>GroupName = ''web'', Children = [''db''], GroupVariables = [(''k'', ''v'')]\<rparr>]"]
    by (simp add: names)
qed

text \<open>
  Claim C4: a host with a non-empty name is filed under \<^verbatim>\<open>[default]\<close> when its group
  list is empty, and under \<^verbatim>\<open>[web]\<close> and nowhere else when its group list holds
  \<^verbatim>\<open>web\<close> only. Where the host stands in the input does not matter. The text built
  with the host is made of the sections of the text built without it, in the format of the
  document, with two changes only: the target group has a section (put in its sorted
  place when no other host or record names the group), and the host's line is inserted
  among the sorted host lines of that section. The host lines of every other section are
  what they are without the host.
\<close>

theorem C4_default_group_fallback:
  assumes "Name h \<noteq> []" and "Groups h = [] \<or> Groups h = [''web'']"
  shows
    "(let target = (if Groups h = [] then DefaultHostGroup else ''web'');
          line = formatInventoryHostLine tbl (Name h) (Variables h);
          present = collect tbl (hs1 @ h # hs2) groups;
          absent = collect tbl (hs1 @ hs2) groups;
          filed = (\<lambda>g. (sectionOf tbl absent g)
                     \<lparr>secHosts := (if g = target then insort line (secHosts (sectionOf tbl absent g))
                                   else secHosts (sectionOf tbl absent g))\<rparr>)
      in fst (buildInventoryFileContent tbl (hs1 @ h # hs2) groups) =
           concat (map (\<lambda>g. renderSection (filed g))
                       (sorted_list_of_set (insert target (set (sortedGroupNames absent)))))
         \<and> fst (buildInventoryFileContent tbl (hs1 @ hs2) groups) =
           concat (map (\<lambda>g. renderSection (sectionOf tbl absent g)) (sortedGroupNames absent))
         \<and> target \<in> set (sortedGroupNames present)
         \<and> line \<in> set (secHosts (sectionOf tbl present target))
         \<and> (\<forall>g. secHosts (sectionOf tbl present g) =
                (if g = target then insort line (secHosts (sectionOf tbl absent g))
                 else secHosts (sectionOf tbl absent g))))"
proof -
  define target where "target = (if Groups h = [] then DefaultHostGroup else ''web'')"
  define line where "line = formatInventoryHostLine tbl (Name h) (Variables h)"
  define present where "present = collect tbl (hs1 @ h # hs2) groups"
  define absent where "absent = collect tbl (hs1 @ hs2) groups"
  define filed where "filed = (\<lambda>g. (sectionOf tbl absent g)
                     \<lparr>secHosts := (if g = target then insort line (secHosts (sectionOf tbl absent g))
                                   else secHosts (sectionOf tbl absent g))\<rparr>)"
  have eff: "effectiveGroups h = [target]" and ne: "target \<noteq> []"
    using assms(2) by (auto simp: effectiveGroups_def target_def DefaultHostGroup_def)
  have contrib: "hostContribution tbl h g = (if g = target then [line] else [])" for g
    using assms(1) ne by (auto simp: hostContribution_def eff line_def)
  have hgn: "hostGroupNames h = {target}"
    using assms(1) ne by (simp add: hostGroupNames_def eff)
  have names_set: "groupNames present = insert target (groupNames absent)"
    by (auto simp: present_def absent_def groupNames_collect hgn)
  have names: "sortedGroupNames present
      = sorted_list_of_set (insert target (set (sortedGroupNames absent)))"
    by (simp add: sortedGroupNames_def names_set absent_def finite_groupNames_collect)
  have member: "target \<in> set (sortedGroupNames present)"
    by (simp add: present_def sortedGroupNames_props names_set [unfolded present_def])
  have lines: "secHosts (sectionOf tbl present g) =
      (if g = target then insort line (secHosts (sectionOf tbl absent g))
       else secHosts (sectionOf tbl absent g))" for g
    by (simp add: present_def absent_def sectionOf_def hostsOf_collect contrib sort_insert_middle)
  have sections: "sectionOf tbl present g = filed g" for g
    using lines [of g]
    by (simp add: filed_def sectionOf_def present_def absent_def
        varsOf_collect_frame [of tbl "hs1 @ h # hs2" groups g "hs1 @ hs2"])
  have text_present: "fst (buildInventoryFileContent tbl (hs1 @ h # hs2) groups) =
      concat (map (\<lambda>g. renderSection (filed g))
                  (sorted_list_of_set (insert target (set (sortedGroupNames absent)))))"
    by (simp add: build_sections sections [unfolded present_def] names [unfolded present_def])
  have text_absent: "fst (buildInventoryFileContent tbl (hs1 @ hs2) groups) =
      concat (map (\<lambda>g. renderSection (sectionOf tbl absent g)) (sortedGroupNames absent))"
    by (simp add: build_sections absent_def)
  have inside: "line \<in> set (secHosts (sectionOf tbl present target))"
    by (simp add: lines set_insort_key)
  show ?thesis
    unfolding Let_def
    using text_present text_absent member inside lines
    unfolding target_def line_def present_def absent_def filed_def
    by blast
qed

theorem C4_default_group_fallback_witness:
  "fst (buildInventoryFileContent asciiTable [\<lparr>Name = ''node1'', Groups = [], Variables = []\<rparr>] [])
     = ''[default]'' @ [CHR 0x0A] @ ''node1'' @ [CHR 0x0A] @ [CHR 0x0A]
   \<and> fst (buildInventoryFileContent asciiTable
       [\<lparr>Name = ''node2'', Groups = [], Variables = []\<rparr>,
        \<lparr>Name = ''node1'', Groups = [''web''], Variables = []\<rparr>] [])
     = ''[default]'' @ [CHR 0x0A] @ ''node2'' @ [CHR 0x0A] @ [CHR 0x0A]
       @ ''[web]'' @ [CHR 0x0A] @ ''node1'' @ [CHR 0x0A] @ [CHR 0x0A]
   \<and> secHosts (sectionOf asciiTable
      (collect asciiTable [\<lparr>Name = ''node1'', Groups = [], Variables = []\<rparr>] []) ''web'') = []"
  using
    C4_default_group_fallback
      [of "\<lparr>Name = ''node1'', Groups = [], Variables = []\<rparr>" asciiTable "[]" "[]" "[]"]
    C4_default_group_fallback
      [of "\<lparr>Name = ''node1'', Groups = [''web''], Variables = []\<rparr>" asciiTable
        "[\<lparr>Name = ''node2'', Groups = [], Variables = []\<rparr>]" "[]" "[]"]
  by (simp add: builder_defs string_order sectionOf_def)

text \<open>
  Claim C5 says that every group name in any host's group list, or declared by a group
  record, gets exactly one heading. The builder skips a host without a name before it
  reads the host's groups, and it skips an empty group name: group \<^verbatim>\<open>x\<close>, named only
  by a host with an empty name, gets no heading (the text is empty), and the empty name
  in the group list of \<^verbatim>\<open>node1\<close> gets none either. Names are written as they are, so
  a line that reads like a heading need not be one: for the host named \<^verbatim>\<open>[g]\<close> in group
  \<^verbatim>\<open>g\<close> the line \<^verbatim>\<open>[g]\<close> is written twice, as the heading and as the host line.
\<close>

theorem C5_counterexample:
  "''x'' \<in> set (Groups \<lparr>Name = [], Groups = [''x''], Variables = []\<rparr>)
   \<and> count_list (sortedGroupNames
        (collect asciiTable [\<lparr>Name = [], Groups = [''x''], Variables = []\<rparr>] [])) ''x'' = 0
   \<and> fst (buildInventoryFileContent asciiTable
        [\<lparr>Name = [], Groups = [''x''], Variables = []\<rparr>] []) = []
   \<and> [] \<in> set (Groups \<lparr>Name = ''node1'', Groups = [[], ''web''], Variables = []\<rparr>)
   \<and> count_list (sortedGroupNames
        (collect asciiTable [\<lparr>Name = ''node1'', Groups = [[], ''web''], Variables = []\<rparr>] [])) [] = 0
   \<and> fst (buildInventoryFileContent asciiTable
        [\<lparr>Name = ''node1'', Groups = [[], ''web''], Variables = []\<rparr>] [])
       = ''[web]'' @ [CHR 0x0A] @ ''node1'' @ [CHR 0x0A] @ [CHR 0x0A]
   \<and> fst (buildInventoryFileContent asciiTable
        [\<lparr>Name = ''[g]'', Groups = [''g''], Variables = []\<rparr>] [])
       = ''[g]'' @ [CHR 0x0A] @ ''[g]'' @ [CHR 0x0A] @ [CHR 0x0A]"
  by (simp add: builder_defs)

text \<open>
  Claim C5, amended: every non-empty group name that is in the group list of a host with
  a non-empty name, or is the name of a group record, has exactly one section in the
  text. The text is the sections of the groups sorted before it, its own section, and the
  sections of the groups sorted after it, each in the format of the document, and the
  name is not among the groups before or after. Its section opens with the heading, the
  sorted host lines (the lines of the hosts filed under the group) and a blank line; it
  has a \<^verbatim>\<open>:vars\<close> block exactly when a record of that name has a variable, and a
  \<^verbatim>\<open>:children\<close> block exactly when a record of that name has a child. So when no group
  record has that name, the section is the heading, the sorted host lines and the blank
  line, and nothing else.
\<close>

theorem C5_group_headings:
  assumes "g \<noteq> []"
    and "(\<exists>h\<in>set hosts. Name h \<noteq> [] \<and> g \<in> set (Groups h)) \<or> (\<exists>grp\<in>set groups. GroupName grp = g)"
  shows
    "(\<exists>before after.
        sortedGroupNames (collect tbl hosts groups) = before @ g # after
        \<and> g \<notin> set before \<and> g \<notin> set after
        \<and> fst (buildInventoryFileContent tbl hosts groups) =
            concat (map (\<lambda>n. renderSection (sectionOf tbl (collect tbl hosts groups) n)) before)
            @ renderSection (sectionOf tbl (collect tbl hosts groups) g)
            @ concat (map (\<lambda>n. renderSection (sectionOf tbl (collect tbl hosts groups) n)) after))
     \<and> (\<exists>blocks. renderSection (sectionOf tbl (collect tbl hosts groups) g) =
            ''['' @ g @ '']'' @ [CHR 0x0A]
            @ concat (map (\<lambda>line. line @ [CHR 0x0A])
                (sort (concat (map (\<lambda>h. hostContribution tbl h g) hosts))))
            @ [CHR 0x0A] @ blocks)
     \<and> secHosts (sectionOf tbl (collect tbl hosts groups) g) =
         sort (concat (map (\<lambda>h. hostContribution tbl h g) hosts))
     \<and> (secVars (sectionOf tbl (collect tbl hosts groups) g) \<noteq> [] \<longleftrightarrow>
          (\<exists>grp\<in>set groups. GroupName grp = g \<and> GroupVariables grp \<noteq> []))
     \<and> (secChildren (sectionOf tbl (collect tbl hosts groups) g) \<noteq> [] \<longleftrightarrow>
          (\<exists>grp\<in>set groups. GroupName grp = g \<and> Children grp \<noteq> []))
     \<and> fst (buildInventoryFileContent tbl hosts groups) =
       concat (map (renderGroup tbl (collect tbl hosts groups))
                   (sortedGroupNames (collect tbl hosts groups)))
     \<and> count_list (sortedGroupNames (collect tbl hosts groups)) g = 1
     \<and> ((\<forall>grp\<in>set groups. GroupName grp \<noteq> g) \<longrightarrow>
          secVars (sectionOf tbl (collect tbl hosts groups) g) = []
          \<and> secChildren (sectionOf tbl (collect tbl hosts groups) g) = []
          \<and> renderSection (sectionOf tbl (collect tbl hosts groups) g) =
            ''['' @ g @ '']'' @ [CHR 0x0A]
            @ concat (map (\<lambda>line. line @ [CHR 0x0A]) (sort (hostsOf (collect tbl hosts groups) g)))
            @ [CHR 0x0A]
          \<and> renderGroup tbl (collect tbl hosts groups) g =
            ''['' @ g @ '']'' @ [CHR 0x0A]
            @ concat (map (\<lambda>line. line @ [CHR 0x0A]) (sort (hostsOf (collect tbl hosts groups) g)))
            @ [CHR 0x0A])"
proof -
  let ?st = "collect tbl hosts groups"
  let ?F = "\<lambda>n. renderSection (sectionOf tbl ?st n)"
  have "g \<in> hostGroupNames h" if "Name h \<noteq> []" and "g \<in> set (Groups h)" for h
    using that assms(1) by (auto simp: hostGroupNames_def effectiveGroups_def)
  with assms have "g \<in> groupNames ?st"
    unfolding groupNames_collect by blast
  then have member: "g \<in> set (sortedGroupNames ?st)"
    by (simp add: sortedGroupNames_props)
  then have one: "count_list (sortedGroupNames ?st) g = 1"
    by (simp add: count_list_distinct sortedGroupNames_props)
  from member obtain before after where split: "sortedGroupNames ?st = before @ g # after"
    by (auto simp: in_set_conv_decomp)
  have "distinct (before @ g # after)"
    using sortedGroupNames_props(2) [of tbl hosts groups] by (simp only: split)
  then have once: "g \<notin> set before" "g \<notin> set after"
    by auto
  have whole: "fst (buildInventoryFileContent tbl hosts groups) =
      concat (map ?F before) @ ?F g @ concat (map ?F after)"
    by (simp add: build_sections split)
  have located: "\<exists>before after.
        sortedGroupNames ?st = before @ g # after \<and> g \<notin> set before \<and> g \<notin> set after
        \<and> fst (buildInventoryFileContent tbl hosts groups) =
            concat (map ?F before) @ ?F g @ concat (map ?F after)"
    using split once whole by blast
  have heading: "\<exists>blocks. ?F g =
            ''['' @ g @ '']'' @ [CHR 0x0A]
            @ concat (map (\<lambda>line. line @ [CHR 0x0A])
                (sort (concat (map (\<lambda>h. hostContribution tbl h g) hosts))))
            @ [CHR 0x0A] @ blocks"
    by (simp add: renderSection_def sectionOf_def hostsOf_collect)
  have filed: "secHosts (sectionOf tbl ?st g) =
      sort (concat (map (\<lambda>h. hostContribution tbl h g) hosts))"
    by (simp add: sectionOf_def hostsOf_collect)
  have vars: "secVars (sectionOf tbl ?st g) \<noteq> [] \<longleftrightarrow>
      (\<exists>grp\<in>set groups. GroupName grp = g \<and> GroupVariables grp \<noteq> [])"
    using assms(1) by (simp add: secVars_Nil varsOf_collect)
  have children: "secChildren (sectionOf tbl ?st g) \<noteq> [] \<longleftrightarrow>
      (\<exists>grp\<in>set groups. GroupName grp = g \<and> Children grp \<noteq> [])"
    using assms(1) by (simp add: secChildren_Nil childrenOf_collect)
  have plain: "renderGroup tbl ?st g =
            ''['' @ g @ '']'' @ [CHR 0x0A]
            @ concat (map (\<lambda>line. line @ [CHR 0x0A]) (sort (hostsOf ?st g)))
            @ [CHR 0x0A]" if "\<forall>grp\<in>set groups. GroupName grp \<noteq> g"
    using that
    by (simp add: renderGroup_def collect_def groupVars_fold_addGroup_None
        groupChildren_fold_addGroup_None emptyAcc_def)
  have novars: "secVars (sectionOf tbl ?st g) = [] \<and> secChildren (sectionOf tbl ?st g) = []"
    if "\<forall>grp\<in>set groups. GroupName grp \<noteq> g"
    using that varsOf_collect [of tbl hosts groups g] childrenOf_collect [of tbl hosts groups g]
    by (auto simp: secVars_Nil secChildren_Nil)
  have unfolded: "fst (buildInventoryFileContent tbl hosts groups) =
       concat (map (renderGroup tbl ?st) (sortedGroupNames ?st))"
    by (simp add: buildInventoryFileContent_def Let_def)
  have bare: "(\<forall>grp\<in>set groups. GroupName grp \<noteq> g) \<longrightarrow>
          secVars (sectionOf tbl ?st g) = []
          \<and> secChildren (sectionOf tbl ?st g) = []
          \<and> ?F g = ''['' @ g @ '']'' @ [CHR 0x0A]
            @ concat (map (\<lambda>line. line @ [CHR 0x0A]) (sort (hostsOf ?st g))) @ [CHR 0x0A]
          \<and> renderGroup tbl ?st g = ''['' @ g @ '']'' @ [CHR 0x0A]
            @ concat (map (\<lambda>line. line @ [CHR 0x0A]) (sort (hostsOf ?st g))) @ [CHR 0x0A]"
    using plain novars by (simp add: renderGroup_section [symmetric])
  show ?thesis
    by (rule conjI located heading filed vars children unfolded one bare)+
qed

theorem C5_group_headings_witness:
  "fst (buildInventoryFileContent asciiTable
      [\<lparr>Name = ''node1'', Groups = [''web''], Variables = []\<rparr>] [])
     = ''[web]'' @ [CHR 0x0A] @ ''node1'' @ [CHR 0x0A] @ [CHR 0x0A]
   \<and> count_list (sortedGroupNames
     (collect asciiTable [\<lparr>Name = ''node1'', Groups = [''web''], Variables = []\<rparr>] [])) ''web'' = 1
   \<and> renderGroup asciiTable
       (collect asciiTable [\<lparr>Name = ''node1'', Groups = [''web''], Variables = []\<rparr>] []) ''web''
       = ''[web]'' @ [CHR 0x0A] @ ''node1'' @ [CHR 0x0A] @ [CHR 0x0A]"
proof -
  have names: "sortedGroupNames
      (collect asciiTable [\<lparr>Name = ''node1'', Groups = [''web''], Variables = []\<rparr>] []) = [''web'']"
    by (simp add: builder_defs)
  have lines: "hostsOf
      (collect asciiTable [\<lparr>Name = ''node1'', Groups = [''web''], Variables = []\<rparr>] []) ''web''
      = [''node1'']"
    by (simp add: builder_defs)
  from C5_group_headings
    [of "''web''" "[\<lparr>Name = ''node1'', Groups = [''web''], Variables = []\<rparr>]" "[]" asciiTable]
  show ?thesis
    by (simp add: names lines append_eq_Cons_conv)
qed

text \<open>
  Claim C6 says that \<^verbatim>\<open>InterfaceToString\<close> returns exactly the elements that are
  strings. The code reports each element that is not a string, and then appends the
  empty string for it: for the list of the string \<^verbatim>\<open>a\<close> and the number 1 it returns two
  strings, the second one empty, and one diagnostic.
\<close>

theorem C6_non_string_keeps_empty_string:
  "InterfaceToString [IString ''a'', IInt 1] = ([''a'', []], [parseValueError])"
  by simp

text \<open>
  Claim C7: every variable value, whatever its bytes (quotes, backslashes, control
  characters, invalid UTF-8), is written after \<^verbatim>\<open>key=\<close> as its quoted form, in host
  lines and in \<^verbatim>\<open>:vars\<close> blocks alike, and un-quoting the quoted form gives the value
  back. A \<^verbatim>\<open>:vars\<close> block is one line per key of the map, the key, \<^verbatim>\<open>=\<close> and the quoted
  form of the value bound to the key; a host line is the host name and then, per key, a
  space, the key, \<^verbatim>\<open>=\<close> and the quoted form of the value bound to the key. The keys
  written are the keys of the map, each once and in ascending order, so each binding of
  the map is written, and what is written for it un-quotes to the bound value. This holds for every table of printable
  runes.
\<close>

theorem C7_quote_roundtrip:
  "formatInventoryVariables tbl vars =
       concat (map (\<lambda>key. key @ ''='' @ Quote tbl (the (map_of vars key)) @ [CHR 0x0A])
                   (sortedKeys vars))
   \<and> formatInventoryHostLine tbl hostname vars =
       hostname @ concat (map (\<lambda>key. '' '' @ key @ ''='' @ Quote tbl (the (map_of vars key)))
                              (sortedKeys vars))
   \<and> (\<forall>key v. map_of vars key = Some v \<longrightarrow>
         key \<in> set (sortedKeys vars) \<and> Unquote (Quote tbl (the (map_of vars key))) = Some v)
   \<and> Unquote (Quote tbl v) = Some v
   \<and> sortedKeys vars = sorted_list_of_set (dom (map_of vars))"
proof -
  have block: "formatInventoryVariables tbl vars =
       concat (map (\<lambda>key. key @ ''='' @ Quote tbl (the (map_of vars key)) @ [CHR 0x0A])
                   (sortedKeys vars))"
    by (simp add: formatInventoryVariables_def mapGet_key cong: map_cong)
  have line: "formatInventoryHostLine tbl hostname vars =
       hostname @ concat (map (\<lambda>key. '' '' @ key @ ''='' @ Quote tbl (the (map_of vars key)))
                              (sortedKeys vars))"
  proof (cases "vars = []")
    case True
    then show ?thesis
      by (simp add: formatInventoryHostLine_def mapLen_def mapKeys_def sortedKeys_def)
  next
    case False
    then have "mapLen vars \<noteq> 0"
      using mapLen_pos [of vars] by simp
    then show ?thesis
      by (simp add: formatInventoryHostLine_def mapGet_key cong: map_cong)
  qed
  have bindings: "\<forall>key v. map_of vars key = Some v \<longrightarrow>
         key \<in> set (sortedKeys vars) \<and> Unquote (Quote tbl (the (map_of vars key))) = Some v"
    by (simp add: key_of_binding Unquote_Quote)
  have keys: "sortedKeys vars = sorted_list_of_set (dom (map_of vars))"
    by (simp add: sortedKeys_def mapKeys_def dom_map_of_conv_image_fst
        sorted_list_of_set_sort_remdups flip: set_map)
  show ?thesis
    by (rule conjI block line bindings Unquote_Quote keys)+
qed

theorem C7_quote_roundtrip_witness:
  "formatInventoryVariables asciiTable [(''k'', [CHR ''a'', CHR 0x22, CHR 0x5C])]
     = ''k='' @ [CHR 0x22, CHR ''a'', CHR 0x5C, CHR 0x22, CHR 0x5C, CHR 0x5C, CHR 0x22, CHR 0x0A]
   \<and> formatInventoryHostLine asciiTable ''h'' [(''k'', [CHR ''a'', CHR 0x22, CHR 0x5C])]
     = ''h k='' @ [CHR 0x22, CHR ''a'', CHR 0x5C, CHR 0x22, CHR 0x5C, CHR 0x5C, CHR 0x22]
   \<and> Unquote [CHR 0x22, CHR ''a'', CHR 0x5C, CHR 0x22, CHR 0x5C, CHR 0x5C, CHR 0x22]
     = Some [CHR ''a'', CHR 0x22, CHR 0x5C]
   \<and> Unquote (Quote asciiTable [CHR ''a'', CHR 0x22, CHR 0x5C, CHR 0x0A, CHR 0xFF])
     = Some [CHR ''a'', CHR 0x22, CHR 0x5C, CHR 0x0A, CHR 0xFF]"
proof -
  have quoted: "Quote asciiTable [CHR ''a'', CHR 0x22, CHR 0x5C]
      = [CHR 0x22, CHR ''a'', CHR 0x5C, CHR 0x22, CHR 0x5C, CHR 0x5C, CHR 0x22]"
    by (simp add: Quote_def quoteLoop_Nil quoteLoop_plain quoteLoop_quote quoteLoop_backslash)
  have keys: "sortedKeys [(''k'', [CHR ''a'', CHR 0x22, CHR 0x5C])] = [''k'']"
    by (simp add: sortedKeys_def mapKeys_def)
  note written = C7_quote_roundtrip
    [of asciiTable "[(''k'', [CHR ''a'', CHR 0x22, CHR 0x5C])]" "''h''"
      "[CHR ''a'', CHR 0x22, CHR 0x5C]"]
  note other = C7_quote_roundtrip
    [of asciiTable "[]" "[]" "[CHR ''a'', CHR 0x22, CHR 0x5C, CHR 0x0A, CHR 0xFF]"]
  have a: "formatInventoryVariables asciiTable [(''k'', [CHR ''a'', CHR 0x22, CHR 0x5C])]
     = ''k='' @ [CHR 0x22, CHR ''a'', CHR 0x5C, CHR 0x22, CHR 0x5C, CHR 0x5C, CHR 0x22, CHR 0x0A]"
    using written [THEN conjunct1] by (simp add: keys quoted)
  have b: "formatInventoryHostLine asciiTable ''h'' [(''k'', [CHR ''a'', CHR 0x22, CHR 0x5C])]
     = ''h k='' @ [CHR 0x22, CHR ''a'', CHR 0x5C, CHR 0x22, CHR 0x5C, CHR 0x5C, CHR 0x22]"
    using written [THEN conjunct2, THEN conjunct1] by (simp add: keys quoted)
  have c: "Unquote [CHR 0x22, CHR ''a'', CHR 0x5C, CHR 0x22, CHR 0x5C, CHR 0x5C, CHR 0x22]
     = Some [CHR ''a'', CHR 0x22, CHR 0x5C]"
    using written [THEN conjunct2, THEN conjunct2, THEN conjunct2, THEN conjunct1]
    by (simp only: quoted)
  have d: "Unquote (Quote asciiTable [CHR ''a'', CHR 0x22, CHR 0x5C, CHR 0x0A, CHR 0xFF])
     = Some [CHR ''a'', CHR 0x22, CHR 0x5C, CHR 0x0A, CHR 0xFF]"
    using other by blast
  show ?thesis
    by (rule conjI a b c d)+
qed

text \<open>
  Claim C8 says that with no explicit host \<^verbatim>\<open>BuildPlaybookInventory\<close> builds exactly one
  host from the fallback host name, port and groups, and that for host name
  \<^verbatim>\<open>10.0.0.5\<close>, port 22 and no groups the output has the host line under
  \<^verbatim>\<open>[default]\<close>. The code builds the host after it has called \<^verbatim>\<open>fileInfo.Name()\<close>: when
  \<^verbatim>\<open>CreateTemp\<close> fails, the call panics on the nil file before any host is built, and
  there is no output at all (the defect of claim C1; the pattern \<^verbatim>\<open>inv/x\<close> is such an
  input). When the file is created, the call returns its path, and the text handed to
  the file and the diagnostics are those of the builder run on exactly one host: its name
  is the fallback host name; its variables are \<^verbatim>\<open>ansible_port\<close> with the decimal
  rendering of the port (its digits read back give the port; a negative port is a minus
  sign and the rendering of its absolute value), or nothing when the port is -1; its only
  group is \<^verbatim>\<open>default\<close> when the fallback group list is empty, and its groups are the
  converted fallback groups otherwise. For host name \<^verbatim>\<open>10.0.0.5\<close>, port 22 and no groups
  that text is the \<^verbatim>\<open>[default]\<close> heading, the host line (the host name, a space,
  \<^verbatim>\<open>ansible_port=\<close> and the quoted 22) and a blank line.
\<close>

theorem C8_fallback_host:
  "(let synthetic =
          \<lparr>Name = hostname,
           Groups = (if hostgroups = [] then [''default'']
                     else fst (InterfaceToString hostgroups)),
           Variables = (if port = - 1 then [] else [(''ansible_port'', Itoa port)])\<rparr>;
        built = buildInventoryFileContent tbl [synthetic] groups
    in (CreateTemp env dest = Inl err \<longrightarrow>
          BuildPlaybookInventory tbl env dest hostname port hostgroups [] groups
            = Panics nilDereference)
       \<and> (CreateTemp env dest = Inr f \<longrightarrow>
          BuildPlaybookInventory tbl env dest hostname port hostgroups [] groups
            = Returns \<lparr>path = f,
                       resultDiags = snd (InterfaceToString hostgroups) @ snd built
                         @ (case WriteString env f (fst built) of
                              Some e \<Rightarrow> [errorDiag (''Fail to write inventory: '' @ e)]
                            | None \<Rightarrow> []),
                       written = fst built\<rparr>)
       \<and> fst (fallbackHosts hostname port hostgroups []) = [synthetic])
   \<and> (0 \<le> port \<longrightarrow> decimalNat (Itoa port) = nat port \<and> set (Itoa port) \<subseteq> set ''0123456789'')
   \<and> (port < 0 \<longrightarrow> Itoa port = CHR ''-'' # Itoa (- port))
   \<and> Itoa 22 = ''22''
   \<and> buildInventoryFileContent tbl
        [\<lparr>Name = ''10.0.0.5'', Groups = [''default''],
          Variables = [(''ansible_port'', ''22'')]\<rparr>] []
      = (''[default]'' @ [CHR 0x0A] @ ''10.0.0.5 ansible_port=''
           @ [CHR 0x22] @ ''22'' @ [CHR 0x22, CHR 0x0A, CHR 0x0A], [])"
proof -
  define synthetic where "synthetic =
          \<lparr>Name = hostname,
           Groups = (if hostgroups = [] then [''default'']
                     else fst (InterfaceToString hostgroups)),
           Variables = (if port = - 1 then [] else [(''ansible_port'', Itoa port)])\<rparr>"
  define built where "built = buildInventoryFileContent tbl [synthetic] groups"
  have fallback: "fallbackHosts hostname port hostgroups []
      = ([synthetic], snd (InterfaceToString hostgroups))"
    by (cases hostgroups)
      (simp_all add: fallbackHosts_def split_def Let_def DefaultHostGroup_def synthetic_def)
  have failure: "CreateTemp env dest = Inl err \<longrightarrow>
          BuildPlaybookInventory tbl env dest hostname port hostgroups [] groups
            = Panics nilDereference"
    by (simp add: BuildPlaybookInventory_def fileName_def)
  have success: "CreateTemp env dest = Inr f \<longrightarrow>
          BuildPlaybookInventory tbl env dest hostname port hostgroups [] groups
            = Returns \<lparr>path = f,
                       resultDiags = snd (InterfaceToString hostgroups) @ snd built
                         @ (case WriteString env f (fst built) of
                              Some e \<Rightarrow> [errorDiag (''Fail to write inventory: '' @ e)]
                            | None \<Rightarrow> []),
                       written = fst built\<rparr>"
    by (simp add: BuildPlaybookInventory_def fileName_def fallback built_def split_def Let_def)
  have hosts: "fst (fallbackHosts hostname port hostgroups []) = [synthetic]"
    by (simp add: fallback)
  have general: "(CreateTemp env dest = Inl err \<longrightarrow>
          BuildPlaybookInventory tbl env dest hostname port hostgroups [] groups
            = Panics nilDereference)
       \<and> (CreateTemp env dest = Inr f \<longrightarrow>
          BuildPlaybookInventory tbl env dest hostname port hostgroups [] groups
            = Returns \<lparr>path = f,
                       resultDiags = snd (InterfaceToString hostgroups) @ snd built
                         @ (case WriteString env f (fst built) of
                              Some e \<Rightarrow> [errorDiag (''Fail to write inventory: '' @ e)]
                            | None \<Rightarrow> []),
                       written = fst built\<rparr>)
       \<and> fst (fallbackHosts hostname port hostgroups []) = [synthetic]"
    by (rule conjI failure success hosts)+
  have decimal: "0 \<le> port \<longrightarrow>
      decimalNat (Itoa port) = nat port \<and> set (Itoa port) \<subseteq> set ''0123456789''"
    using natDigits_digits [of "nat port"] by (simp add: Itoa_def decimalNat_natDigits)
  have sign: "port < 0 \<longrightarrow> Itoa port = CHR ''-'' # Itoa (- port)"
    by (simp add: Itoa_def)
  have itoa: "Itoa 22 = ''22''"
    by (simp add: Itoa_def natDigits_22)
  have content: "buildInventoryFileContent tbl
      [\<lparr>Name = ''10.0.0.5'', Groups = [''default''], Variables = [(''ansible_port'', ''22'')]\<rparr>] []
    = (''[default]'' @ [CHR 0x0A] @ ''10.0.0.5 ansible_port=''
         @ [CHR 0x22] @ ''22'' @ [CHR 0x22, CHR 0x0A, CHR 0x0A], [])"
    by (simp add: builder_defs)
  show ?thesis
    unfolding Let_def
    using general decimal sign itoa content
    unfolding built_def synthetic_def
    by (intro conjI) blast+
qed

theorem C8_fallback_host_witness:
  "BuildPlaybookInventory asciiTable rejectingEnv ''inv/x'' ''10.0.0.5'' 22 [] [] []
     = Panics nilDereference
   \<and> BuildPlaybookInventory asciiTable rejectingEnv ''inventory'' ''10.0.0.5'' 22 [] [] []
     = Returns \<lparr>path = ''/tmp/inventory'', resultDiags = [],
                written = ''[default]'' @ [CHR 0x0A] @ ''10.0.0.5 ansible_port=''
                          @ [CHR 0x22] @ ''22'' @ [CHR 0x22, CHR 0x0A, CHR 0x0A]\<rparr>
   \<and> fst (fallbackHosts ''10.0.0.5'' (- 1) [IString ''web''] []) =
     [\<lparr>Name = ''10.0.0.5'', Groups = [''web''], Variables = []\<rparr>]
   \<and> decimalNat (Itoa 22) = 22"
proof -
  have failed: "CreateTemp rejectingEnv ''inv/x'' = Inl ''pattern contains path separator''"
    by (simp add: rejectingEnv_def)
  have created: "CreateTemp rejectingEnv ''inventory'' = Inr ''/tmp/inventory''"
    by (simp add: rejectingEnv_def)
  have written: "WriteString rejectingEnv f c = None" for f c
    by (simp add: rejectingEnv_def)
  note bug = C8_fallback_host [of "''10.0.0.5''" "[]" 22 asciiTable "[]" rejectingEnv "''inv/x''"
      "''pattern contains path separator''" "''/tmp/inventory''"]
  note run = C8_fallback_host [of "''10.0.0.5''" "[]" 22 asciiTable "[]" rejectingEnv "''inventory''"
      "''pattern contains path separator''" "''/tmp/inventory''"]
  note other = C8_fallback_host [of "''10.0.0.5''" "[IString ''web'']" "- 1" asciiTable "[]"
      rejectingEnv "''inventory''" "''pattern contains path separator''" "''/tmp/inventory''"]
  have a: "BuildPlaybookInventory asciiTable rejectingEnv ''inv/x'' ''10.0.0.5'' 22 [] [] []
     = Panics nilDereference"
    using bug failed by (simp add: Let_def)
  have b: "BuildPlaybookInventory asciiTable rejectingEnv ''inventory'' ''10.0.0.5'' 22 [] [] []
     = Returns \<lparr>path = ''/tmp/inventory'', resultDiags = [],
                written = ''[default]'' @ [CHR 0x0A] @ ''10.0.0.5 ansible_port=''
                          @ [CHR 0x22] @ ''22'' @ [CHR 0x22, CHR 0x0A, CHR 0x0A]\<rparr>"
    using run created by (simp add: Let_def written)
  have c: "fst (fallbackHosts ''10.0.0.5'' (- 1) [IString ''web''] []) =
     [\<lparr>Name = ''10.0.0.5'', Groups = [''web''], Variables = []\<rparr>]"
    using other by (simp add: Let_def)
  have d: "decimalNat (Itoa 22) = 22"
    using run [THEN conjunct2, THEN conjunct1] by simp
  show ?thesis
    by (rule conjI a b c d)+
qed

text \<open>
  Claim C9: a host with a non-empty name whose group list is not empty and holds empty
  strings only is dropped without a diagnostic. Text and diagnostics are those of the
  same input without the host.
\<close>

theorem C9_empty_group_names_drop_host:
  assumes "Name h \<noteq> []" and "Groups h \<noteq> []" and "\<forall>g\<in>set (Groups h). g = []"
  shows "buildInventoryFileContent tbl (hs1 @ h # hs2) groups
         = buildInventoryFileContent tbl (hs1 @ hs2) groups"
  using addHost_silent [OF assms] by (simp add: buildInventoryFileContent_def collect_def)

theorem C9_empty_group_names_drop_host_witness:
  "Name \<lparr>Name = ''node1'', Groups = [[], []], Variables = []\<rparr> \<noteq> []
   \<and> Groups \<lparr>Name = ''node1'', Groups = [[], []], Variables = []\<rparr> \<noteq> []
   \<and> buildInventoryFileContent asciiTable
       [\<lparr>Name = ''node1'', Groups = [[], []], Variables = []\<rparr>] [] = ([], [])"
  using C9_empty_group_names_drop_host
    [of "\<lparr>Name = ''node1'', Groups = [[], []], Variables = []\<rparr>" asciiTable "[]" "[]" "[]"]
  by (simp add: builder_defs)

text \<open>
  Claim C10: in \<^verbatim>\<open>ExpandInventoryHosts\<close> and \<^verbatim>\<open>ExpandInventoryGroups\<close> an entry whose
  \<^verbatim>\<open>groups\<close> (or \<^verbatim>\<open>children\<close>) field is not an array, or whose \<^verbatim>\<open>variables\<close> field is
  not a map, gives the records and the diagnostics of the same entry without that field.
  When the name is a non-empty string and the \<^verbatim>\<open>groups\<close> (or \<^verbatim>\<open>children\<close>) field is not an
  array, the record has no groups (children), and its variables and the diagnostics are
  those of the \<^verbatim>\<open>variables\<close> field alone; when the \<^verbatim>\<open>variables\<close> field is not a map, the
  record has no variables, and its groups (children) and the diagnostics are those of the
  other field alone; when both fields are of the wrong type, the record has neither and
  there is no diagnostic.
\<close>

theorem C10_mistyped_fields_as_absent:
  "((\<forall>xs. map_of m ''groups'' \<noteq> Some (IList xs)) \<longrightarrow>
      ExpandInventoryHosts (pre @ IMap m # post) =
      ExpandInventoryHosts (pre @ IMap (AList.delete ''groups'' m) # post))
   \<and> ((\<forall>vm. map_of m ''variables'' \<noteq> Some (IMap vm)) \<longrightarrow>
      ExpandInventoryHosts (pre @ IMap m # post) =
      ExpandInventoryHosts (pre @ IMap (AList.delete ''variables'' m) # post))
   \<and> ((\<forall>xs. map_of m ''children'' \<noteq> Some (IList xs)) \<longrightarrow>
      ExpandInventoryGroups (pre @ IMap m # post) =
      ExpandInventoryGroups (pre @ IMap (AList.delete ''children'' m) # post))
   \<and> ((\<forall>vm. map_of m ''variables'' \<noteq> Some (IMap vm)) \<longrightarrow>
      ExpandInventoryGroups (pre @ IMap m # post) =
      ExpandInventoryGroups (pre @ IMap (AList.delete ''variables'' m) # post))
   \<and> (map_of m ''name'' = Some (IString name) \<and> name \<noteq> []
       \<and> (\<forall>xs. map_of m ''groups'' \<noteq> Some (IList xs))
       \<and> (\<forall>vm. map_of m ''variables'' \<noteq> Some (IMap vm)) \<longrightarrow>
      ExpandInventoryHosts [IMap m] = ([\<lparr>Name = name, Groups = [], Variables = []\<rparr>], []))
   \<and> (map_of m ''name'' = Some (IString name) \<and> name \<noteq> []
       \<and> (\<forall>xs. map_of m ''children'' \<noteq> Some (IList xs))
       \<and> (\<forall>vm. map_of m ''variables'' \<noteq> Some (IMap vm)) \<longrightarrow>
      ExpandInventoryGroups [IMap m] =
        ([\<lparr>GroupName = name, Children = [], GroupVariables = []\<rparr>], []))
   \<and> (map_of m ''name'' = Some (IString name) \<and> name \<noteq> []
       \<and> (\<forall>xs. map_of m ''groups'' \<noteq> Some (IList xs)) \<longrightarrow>
      ExpandInventoryHosts [IMap m] =
        ([\<lparr>Name = name, Groups = [],
           Variables = fst (case map_of m ''variables'' of
                              Some (IMap vm) \<Rightarrow> mapInterfaceToStringMap vm []
                            | _ \<Rightarrow> ([], []))\<rparr>],
         snd (case map_of m ''variables'' of
                Some (IMap vm) \<Rightarrow> mapInterfaceToStringMap vm [] | _ \<Rightarrow> ([], []))))
   \<and> (map_of m ''name'' = Some (IString name) \<and> name \<noteq> []
       \<and> (\<forall>vm. map_of m ''variables'' \<noteq> Some (IMap vm)) \<longrightarrow>
      ExpandInventoryHosts [IMap m] =
        ([\<lparr>Name = name,
           Groups = fst (case map_of m ''groups'' of
                           Some (IList xs) \<Rightarrow> InterfaceToString xs | _ \<Rightarrow> ([], [])),
           Variables = []\<rparr>],
         snd (case map_of m ''groups'' of
                Some (IList xs) \<Rightarrow> InterfaceToString xs | _ \<Rightarrow> ([], []))))
   \<and> (map_of m ''name'' = Some (IString name) \<and> name \<noteq> []
       \<and> (\<forall>xs. map_of m ''children'' \<noteq> Some (IList xs)) \<longrightarrow>
      ExpandInventoryGroups [IMap m] =
        ([\<lparr>GroupName = name, Children = [],
           GroupVariables = fst (case map_of m ''variables'' of
                                   Some (IMap vm) \<Rightarrow> mapInterfaceToStringMap vm []
                                 | _ \<Rightarrow> ([], []))\<rparr>],
         snd (case map_of m ''variables'' of
                Some (IMap vm) \<Rightarrow> mapInterfaceToStringMap vm [] | _ \<Rightarrow> ([], []))))
   \<and> (map_of m ''name'' = Some (IString name) \<and> name \<noteq> []
       \<and> (\<forall>vm. map_of m ''variables'' \<noteq> Some (IMap vm)) \<longrightarrow>
      ExpandInventoryGroups [IMap m] =
        ([\<lparr>GroupName = name,
           Children = fst (case map_of m ''children'' of
                             Some (IList xs) \<Rightarrow> InterfaceToString xs | _ \<Rightarrow> ([], [])),
           GroupVariables = []\<rparr>],
         snd (case map_of m ''children'' of
                Some (IList xs) \<Rightarrow> InterfaceToString xs | _ \<Rightarrow> ([], []))))"
proof -
  have host: "ExpandInventoryHosts [IMap m] = ([\<lparr>Name = name, Groups = [], Variables = []\<rparr>], [])"
    if "map_of m ''name'' = Some (IString name)" "name \<noteq> []"
      "\<forall>xs. map_of m ''groups'' \<noteq> Some (IList xs)"
      "\<forall>vm. map_of m ''variables'' \<noteq> Some (IMap vm)"
    using that
    by (simp add: expandHostEntry_def asString_def asSlice_mistyped asMap_mistyped Let_def split_def)
  have grp: "ExpandInventoryGroups [IMap m] =
        ([\<lparr>GroupName = name, Children = [], GroupVariables = []\<rparr>], [])"
    if "map_of m ''name'' = Some (IString name)" "name \<noteq> []"
      "\<forall>xs. map_of m ''children'' \<noteq> Some (IList xs)"
      "\<forall>vm. map_of m ''variables'' \<noteq> Some (IMap vm)"
    using that
    by (simp add: expandGroupEntry_def asString_def asSlice_mistyped asMap_mistyped Let_def split_def)
  have single: "ExpandInventoryHosts [e] = expandHostEntry e"
    "ExpandInventoryGroups [e] = expandGroupEntry e" for e
    by (simp_all add: split_def)
  note only = expandHostEntry_groups_only expandHostEntry_variables_only
    expandGroupEntry_children_only expandGroupEntry_variables_only
  show ?thesis
  proof (intro conjI impI, goal_cases)
    case 1 then show ?case
      by (intro ExpandInventoryHosts_entry expandHostEntry_groups_mistyped)
  next
    case 2 then show ?case
      by (intro ExpandInventoryHosts_entry expandHostEntry_variables_mistyped)
  next
    case 3 then show ?case
      by (intro ExpandInventoryGroups_entry expandGroupEntry_children_mistyped)
  next
    case 4 then show ?case
      by (intro ExpandInventoryGroups_entry expandGroupEntry_variables_mistyped)
  next
    case 5 then show ?case using host by blast
  next
    case 6 then show ?case using grp by blast
  next
    case 7 then show ?case
      unfolding single by (intro only(1)) simp_all
  next
    case 8 then show ?case
      unfolding single by (intro only(2)) simp_all
  next
    case 9 then show ?case
      unfolding single by (intro only(3)) simp_all
  next
    case 10 then show ?case
      unfolding single by (intro only(4)) simp_all
  qed
qed

theorem C10_mistyped_fields_as_absent_witness:
  "ExpandInventoryHosts
     [IMap [(''name'', IString ''h''), (''groups'', IInt 3), (''variables'', IBool True)]]
     = ([\<lparr>Name = ''h'', Groups = [], Variables = []\<rparr>], [])
   \<and> ExpandInventoryHosts [IMap [(''name'', IString ''h''), (''groups'', IString ''web'')]]
     = ExpandInventoryHosts [IMap [(''name'', IString ''h'')]]
   \<and> ExpandInventoryHosts
     [IMap [(''name'', IString ''h''), (''groups'', IInt 3),
            (''variables'', IMap [(''a'', IString ''b'')])]]
     = ([\<lparr>Name = ''h'', Groups = [], Variables = [(''a'', ''b'')]\<rparr>], [])
   \<and> ExpandInventoryHosts
     [IMap [(''name'', IString ''h''), (''groups'', IList [IString ''web'']),
            (''variables'', IString ''x'')]]
     = ([\<lparr>Name = ''h'', Groups = [''web''], Variables = []\<rparr>], [])
   \<and> ExpandInventoryGroups
     [IMap [(''name'', IString ''g''), (''children'', INil), (''variables'', IList [])]]
     = ([\<lparr>GroupName = ''g'', Children = [], GroupVariables = []\<rparr>], [])"
  using
    C10_mistyped_fields_as_absent [of "[(''name'', IString ''h''), (''groups'', IInt 3), (''variables'', IBool True)]" "[]" "[]" "''h''"]
    C10_mistyped_fields_as_absent [of "[(''name'', IString ''h''), (''groups'', IString ''web'')]" "[]" "[]" "''h''"]
    C10_mistyped_fields_as_absent [of "[(''name'', IString ''h''), (''groups'', IInt 3), (''variables'', IMap [(''a'', IString ''b'')])]" "[]" "[]" "''h''"]
    C10_mistyped_fields_as_absent [of "[(''name'', IString ''h''), (''groups'', IList [IString ''web'']), (''variables'', IString ''x'')]" "[]" "[]" "''h''"]
    C10_mistyped_fields_as_absent [of "[(''name'', IString ''g''), (''children'', INil), (''variables'', IList [])]" "[]" "[]" "''g''"]
  by (simp add: expandHostEntry_def expandGroupEntry_def asString_def asSlice_def asMap_def
      mapInterfaceToStringMap_def mapKeys_def)

end
